theory Spec2Isabelle
  imports Complex_Main
begin

section \<open>PID playground: controller, plants and the simulation loop\<close>

text \<open>
  The Python sources \<^verbatim>\<open>pid_controller.py\<close>, \<^verbatim>\<open>system_simulation.py\<close> and the
  simulation block of \<^verbatim>\<open>pid_playground.py\<close> are embedded as HOL functions.
  Objects are records that are passed in and returned updated; an exception is the
  \<open>Inl\<close> branch of a sum type. The classes and the loop are first defined over
  \<^typ>\<open>real\<close>, with exact arithmetic in place of Python's floats; the properties
  proved of these definitions do not hinge on an exact equality between two
  differently computed numbers. The controller's \<^verbatim>\<open>update\<close> and the integrator are
  then defined a second time over doubles (binary64 with round to nearest even,
  infinities and NaN), and the properties that depend on rounding are settled there.
\<close>

subsection \<open>Python exceptions and primitive operations\<close>

datatype py_error =
    ValueError string
  | ZeroDivisionError
  | IndexError
  | AttributeError string
  | TypeError

text \<open>Float division \<^verbatim>\<open>a / b\<close>: Python raises \<^verbatim>\<open>ZeroDivisionError\<close> on a zero divisor.\<close>

definition truediv :: "real \<Rightarrow> real \<Rightarrow> py_error + real" where
  "truediv a b = (if b = 0 then Inl ZeroDivisionError else Inr (a / b))"

text \<open>\<^verbatim>\<open>d.get(key, default)\<close> on a dictionary.\<close>

definition dict_get :: "(string \<rightharpoonup> real) \<Rightarrow> string \<Rightarrow> real \<Rightarrow> real" where
  "dict_get d k dflt = (case d k of None \<Rightarrow> dflt | Some v \<Rightarrow> v)"

text \<open>
  Reading an instance attribute that is assigned only in some branches of the
  constructor: \<open>None\<close> is "never assigned", and Python raises \<^verbatim>\<open>AttributeError\<close>.
\<close>

definition getattr :: "string \<Rightarrow> real option \<Rightarrow> py_error + real" where
  "getattr name field = (case field of None \<Rightarrow> Inl (AttributeError name) | Some v \<Rightarrow> Inr v)"

subsection \<open>\<^verbatim>\<open>pid_controller.py\<close>: class PIDController\<close>

record PIDController =
  Kp :: real
  Ki :: real
  Kd :: real
  integral :: real
  previous_error :: real
  output_limits :: "(real \<times> real) option"
  proportional_term :: real
  integral_term :: real
  derivative_term :: real

definition PIDController_init ::
  "real \<Rightarrow> real \<Rightarrow> real \<Rightarrow> (real \<times> real) option \<Rightarrow> PIDController" where
  "PIDController_init kp ki kd limits =
     \<lparr>Kp = kp, Ki = ki, Kd = kd,
      integral = 0, previous_error = 0, output_limits = limits,
      proportional_term = 0, integral_term = 0, derivative_term = 0\<rparr>"

text \<open>
  The anti-windup assignment
  \<^verbatim>\<open>self.integral = (bound - self.proportional_term - self.derivative_term) / self.Ki if self.Ki != 0 else 0\<close>
  which occurs once for each bound.
\<close>

definition anti_windup :: "PIDController \<Rightarrow> real \<Rightarrow> py_error + PIDController" where
  "anti_windup self bound =
     (if Ki self \<noteq> 0 then
        (case truediv (bound - proportional_term self - derivative_term self) (Ki self) of
           Inl e \<Rightarrow> Inl e
         | Inr v \<Rightarrow> Inr (self\<lparr>integral := v\<rparr>))
      else Inr (self\<lparr>integral := 0\<rparr>))"

text \<open>
  The block \<^verbatim>\<open>if self.output_limits: ...\<close>; a pair is a non-empty tuple and hence
  true. The second comparison is an \<^verbatim>\<open>elif\<close>, tried only when the first fails.
\<close>

definition apply_limits :: "PIDController \<Rightarrow> real \<Rightarrow> py_error + (real \<times> PIDController)" where
  "apply_limits self out =
     (case output_limits self of
        None \<Rightarrow> Inr (out, self)
      | Some (min_output, max_output) \<Rightarrow>
          if out > max_output then
            (case anti_windup self max_output of
               Inl e \<Rightarrow> Inl e
             | Inr self' \<Rightarrow> Inr (max_output, self'))
          else if out < min_output then
            (case anti_windup self min_output of
               Inl e \<Rightarrow> Inl e
             | Inr self' \<Rightarrow> Inr (min_output, self'))
          else Inr (out, self))"

definition PIDController_update ::
  "PIDController \<Rightarrow> real \<Rightarrow> real \<Rightarrow> py_error + (real \<times> PIDController)" where
  "PIDController_update self0 error dt =
     (let self1 = self0\<lparr>proportional_term := Kp self0 * error\<rparr>;
          self2 = self1\<lparr>integral := integral self1 + error * dt\<rparr>;
          self3 = self2\<lparr>integral_term := Ki self2 * integral self2\<rparr>
      in case (if dt > 0 then truediv (error - previous_error self3) dt else Inr 0) of
           Inl e \<Rightarrow> Inl e
         | Inr derivative \<Rightarrow>
             (let self4 = self3\<lparr>derivative_term := Kd self3 * derivative\<rparr>;
                  out = proportional_term self4 + integral_term self4 + derivative_term self4
              in case apply_limits self4 out of
                   Inl e \<Rightarrow> Inl e
                 | Inr (out', self5) \<Rightarrow> Inr (out', self5\<lparr>previous_error := error\<rparr>)))"

definition PIDController_reset :: "PIDController \<Rightarrow> PIDController" where
  "PIDController_reset self =
     self\<lparr>integral := 0, previous_error := 0,
          proportional_term := 0, integral_term := 0, derivative_term := 0\<rparr>"

definition set_gains :: "PIDController \<Rightarrow> real \<Rightarrow> real \<Rightarrow> real \<Rightarrow> PIDController" where
  "set_gains self kp ki kd = self\<lparr>Kp := kp, Ki := ki, Kd := kd\<rparr>"

definition get_components :: "PIDController \<Rightarrow> real \<times> real \<times> real" where
  "get_components self = (proportional_term self, integral_term self, derivative_term self)"

definition set_output_limits :: "PIDController \<Rightarrow> real \<Rightarrow> real \<Rightarrow> PIDController" where
  "set_output_limits self min_output max_output =
     self\<lparr>output_limits := Some (min_output, max_output)\<rparr>"

text \<open>
  A sequence of \<^verbatim>\<open>update(error, dt)\<close> calls on one controller, each followed by
  \<^verbatim>\<open>get_components()\<close>: the list of returned outputs with the component values, and
  the final controller. The first exception ends the sequence.
\<close>

fun update_all ::
  "PIDController \<Rightarrow> (real \<times> real) list \<Rightarrow>
     py_error + ((real \<times> real \<times> real \<times> real) list \<times> PIDController)" where
  "update_all self [] = Inr ([], self)"
| "update_all self ((error, dt) # calls) =
     (case PIDController_update self error dt of
        Inl e \<Rightarrow> Inl e
      | Inr (out, self') \<Rightarrow>
          (case update_all self' calls of
             Inl e \<Rightarrow> Inl e
           | Inr (outs, self'') \<Rightarrow> Inr ((out, get_components self') # outs, self'')))"

subsection \<open>\<^verbatim>\<open>system_simulation.py\<close>: class SystemSimulation\<close>

text \<open>
  The attributes \<^verbatim>\<open>time_constant\<close>, \<^verbatim>\<open>gain\<close>, \<^verbatim>\<open>damping\<close> and \<^verbatim>\<open>natural_freq\<close>
  exist only after the branch of \<^verbatim>\<open>_initialize_system\<close> that assigns them.
\<close>

record SystemSimulation =
  system_type :: string
  params :: "string \<rightharpoonup> real"
  "output" :: real
  output_dot :: real
  previous_input :: real
  time_constant :: "real option"
  gain :: "real option"
  damping :: "real option"
  natural_freq :: "real option"

definition initialize_system :: "SystemSimulation \<Rightarrow> py_error + SystemSimulation" where
  "initialize_system self =
     (if system_type self = ''First Order'' then
        Inr (self\<lparr>time_constant := Some (dict_get (params self) ''time_constant'' 1),
                  gain := Some (dict_get (params self) ''gain'' 1)\<rparr>)
      else if system_type self = ''Second Order'' then
        Inr (self\<lparr>damping := Some (dict_get (params self) ''damping'' (1 / 2)),
                  natural_freq := Some (dict_get (params self) ''natural_freq'' 1),
                  gain := Some (dict_get (params self) ''gain'' 1)\<rparr>)
      else if system_type self = ''Integrator'' then
        Inr (self\<lparr>gain := Some (dict_get (params self) ''gain'' 1)\<rparr>)
      else Inl (ValueError (''Unknown system type: '' @ system_type self)))"

definition SystemSimulation_init ::
  "string \<Rightarrow> (string \<rightharpoonup> real) \<Rightarrow> py_error + SystemSimulation" where
  "SystemSimulation_init st ps =
     initialize_system
       \<lparr>system_type = st, params = ps,
        output = 0, output_dot = 0, previous_input = 0,
        time_constant = None, gain = None, damping = None, natural_freq = None\<rparr>"

definition update_first_order ::
  "SystemSimulation \<Rightarrow> real \<Rightarrow> real \<Rightarrow> py_error + (real \<times> SystemSimulation)" where
  "update_first_order self input_signal dt =
     (case getattr ''gain'' (gain self) of
        Inl e \<Rightarrow> Inl e
      | Inr k \<Rightarrow>
     (case getattr ''time_constant'' (time_constant self) of
        Inl e \<Rightarrow> Inl e
      | Inr tau \<Rightarrow>
     (case truediv (k * input_signal - output self) tau of
        Inl e \<Rightarrow> Inl e
      | Inr dydt \<Rightarrow>
          (let self' = self\<lparr>output := output self + dydt * dt\<rparr>
           in Inr (output self', self')))))"

definition update_second_order ::
  "SystemSimulation \<Rightarrow> real \<Rightarrow> real \<Rightarrow> py_error + (real \<times> SystemSimulation)" where
  "update_second_order self input_signal dt =
     (case getattr ''natural_freq'' (natural_freq self) of
        Inl e \<Rightarrow> Inl e
      | Inr wn \<Rightarrow>
     (case getattr ''damping'' (damping self) of
        Inl e \<Rightarrow> Inl e
      | Inr zeta \<Rightarrow>
     (case getattr ''gain'' (gain self) of
        Inl e \<Rightarrow> Inl e
      | Inr k \<Rightarrow>
          (let dx1dt = output_dot self;
               dx2dt = - wn * wn * output self - 2 * zeta * wn * output_dot self
                       + wn * wn * k * input_signal;
               self' = self\<lparr>output := output self + dx1dt * dt\<rparr>;
               self'' = self'\<lparr>output_dot := output_dot self' + dx2dt * dt\<rparr>
           in Inr (output self'', self'')))))"

definition update_integrator ::
  "SystemSimulation \<Rightarrow> real \<Rightarrow> real \<Rightarrow> py_error + (real \<times> SystemSimulation)" where
  "update_integrator self input_signal dt =
     (case getattr ''gain'' (gain self) of
        Inl e \<Rightarrow> Inl e
      | Inr k \<Rightarrow>
          (let dydt = k * input_signal;
               self' = self\<lparr>output := output self + dydt * dt\<rparr>
           in Inr (output self', self')))"

text \<open>
  \<^verbatim>\<open>update\<close> dispatches on the type string; with no matching branch the Python
  method falls off its end and returns \<^verbatim>\<open>None\<close>.
\<close>

definition SystemSimulation_update ::
  "SystemSimulation \<Rightarrow> real \<Rightarrow> real \<Rightarrow> py_error + (real option \<times> SystemSimulation)" where
  "SystemSimulation_update self input_signal dt =
     (if system_type self = ''First Order'' then
        (case update_first_order self input_signal dt of
           Inl e \<Rightarrow> Inl e | Inr (y, self') \<Rightarrow> Inr (Some y, self'))
      else if system_type self = ''Second Order'' then
        (case update_second_order self input_signal dt of
           Inl e \<Rightarrow> Inl e | Inr (y, self') \<Rightarrow> Inr (Some y, self'))
      else if system_type self = ''Integrator'' then
        (case update_integrator self input_signal dt of
           Inl e \<Rightarrow> Inl e | Inr (y, self') \<Rightarrow> Inr (Some y, self'))
      else Inr (None, self))"

definition SystemSimulation_reset :: "SystemSimulation \<Rightarrow> SystemSimulation" where
  "SystemSimulation_reset self = self\<lparr>output := 0, output_dot := 0, previous_input := 0\<rparr>"

definition set_initial_conditions ::
  "SystemSimulation \<Rightarrow> real \<Rightarrow> real \<Rightarrow> SystemSimulation" where
  "set_initial_conditions self initial_output initial_output_dot =
     self\<lparr>output := initial_output, output_dot := initial_output_dot\<rparr>"

subsection \<open>\<^verbatim>\<open>pid_playground.py\<close>: the simulation block of \<^verbatim>\<open>main\<close>\<close>

text \<open>Sequencing of computations that may raise: the first exception is the result.\<close>

definition bind_err :: "py_error + 'a \<Rightarrow> ('a \<Rightarrow> py_error + 'b) \<Rightarrow> py_error + 'b" where
  "bind_err m f = (case m of Inl e \<Rightarrow> Inl e | Inr v \<Rightarrow> f v)"

text \<open>
  One-dimensional numpy arrays of floats are lists. An index may be negative (counted
  from the end); outside \<open>-n \<dots> n - 1\<close> numpy raises \<^verbatim>\<open>IndexError\<close>.
\<close>

definition norm_index :: "nat \<Rightarrow> int \<Rightarrow> py_error + nat" where
  "norm_index n i =
     (let j = (if i < 0 then int n + i else i)
      in if 0 \<le> j \<and> j < int n then Inr (nat j) else Inl IndexError)"

definition getitem :: "real list \<Rightarrow> int \<Rightarrow> py_error + real" where
  "getitem a i = bind_err (norm_index (length a) i) (\<lambda>j. Inr (a ! j))"

definition setitem :: "real list \<Rightarrow> int \<Rightarrow> real \<Rightarrow> py_error + real list" where
  "setitem a i v = bind_err (norm_index (length a) i) (\<lambda>j. Inr (a[j := v]))"

text \<open>\<^verbatim>\<open>np.full(n, v)\<close>; \<^verbatim>\<open>np.zeros(n)\<close> is \<^verbatim>\<open>np.full(n, 0.0)\<close>.\<close>

definition np_full :: "int \<Rightarrow> real \<Rightarrow> py_error + real list" where
  "np_full n v =
     (if n < 0 then Inl (ValueError ''negative dimensions are not allowed'')
      else Inr (replicate (nat n) v))"

definition np_zeros :: "int \<Rightarrow> py_error + real list" where
  "np_zeros n = np_full n 0"

text \<open>
  \<^verbatim>\<open>np.linspace(start, stop, num)\<close> with its default \<^verbatim>\<open>endpoint=True\<close>: \<open>num\<close>
  samples over the closed interval, so that the spacing is \<open>(stop - start) / (num - 1)\<close>
  and the last sample is \<open>stop\<close>; a single sample is \<open>start\<close>.
\<close>

definition np_linspace :: "real \<Rightarrow> real \<Rightarrow> int \<Rightarrow> py_error + real list" where
  "np_linspace start stop num =
     (if num < 0 then Inl (ValueError ''Number of samples must be non-negative'')
      else
        (let divisor = num - 1;
             delta = stop - start;
             step = (if divisor > 0 then delta / real_of_int divisor else delta)
         in Inr (map (\<lambda>i. start + real i * step) [0..<nat num])))"

text \<open>\<^verbatim>\<open>int(x)\<close> on a float truncates towards zero.\<close>

definition py_int :: "real \<Rightarrow> int" where
  "py_int x = (if x \<ge> 0 then \<lfloor>x\<rfloor> else \<lceil>x\<rceil>)"

text \<open>The objects and arrays that the simulation loop reads and writes.\<close>

record loop_vars =
  pid :: PIDController
  system_sim :: SystemSimulation
  output_arr :: "real list"
  control_signal :: "real list"
  error_arr :: "real list"

text \<open>
  The body of \<^verbatim>\<open>for i in range(1, time_steps)\<close>. A right-hand side is evaluated
  before the store into the array. Two paths of the body leave the reals and are
  closed off by an exception here, where numpy would go on with \<open>nan\<close> or \<open>inf\<close>: the
  store of a plant update that returned \<^verbatim>\<open>None\<close> (a plant of no known type), and the
  division by a time constant \<open>0\<close>, which for the numpy scalars read back from the
  arrays gives \<open>inf\<close> or \<open>nan\<close> with a warning. Neither happens with a plant that
  \<open>plant_ready\<close> below describes, and the lemmas about the loop are about such plants.
\<close>

definition sim_step :: "real \<Rightarrow> real \<Rightarrow> loop_vars \<Rightarrow> int \<Rightarrow> py_error + loop_vars" where
  "sim_step setpoint dt v i =
     bind_err (getitem (output_arr v) (i - 1)) (\<lambda>y.
     bind_err (setitem (error_arr v) (i - 1) (setpoint - y)) (\<lambda>err.
     bind_err (getitem err (i - 1)) (\<lambda>e.
     bind_err (PIDController_update (pid v) e dt) (\<lambda>(u, pid').
     bind_err (setitem (control_signal v) (i - 1) u) (\<lambda>ctl.
     bind_err (getitem ctl (i - 1)) (\<lambda>u'.
     bind_err (SystemSimulation_update (system_sim v) u' dt) (\<lambda>(r, sys').
     bind_err (case r of None \<Rightarrow> Inl TypeError | Some y' \<Rightarrow> Inr y') (\<lambda>y'.
     bind_err (setitem (output_arr v) i y') (\<lambda>out.
       Inr \<lparr>pid = pid', system_sim = sys', output_arr = out,
            control_signal = ctl, error_arr = err\<rparr>)))))))))"

fun sim_loop :: "real \<Rightarrow> real \<Rightarrow> loop_vars \<Rightarrow> int list \<Rightarrow> py_error + loop_vars" where
  "sim_loop setpoint dt v [] = Inr v"
| "sim_loop setpoint dt v (i # is) =
     bind_err (sim_step setpoint dt v i) (\<lambda>v'. sim_loop setpoint dt v' is)"

text \<open>
  The dictionary stored in the session state under \<^verbatim>\<open>'simulation_data'\<close>; the fields
  are its keys \<^verbatim>\<open>time\<close>, \<^verbatim>\<open>setpoint\<close>, \<^verbatim>\<open>output\<close>, \<^verbatim>\<open>control_signal\<close>, \<^verbatim>\<open>error\<close>,
  \<^verbatim>\<open>pid_params\<close>, \<^verbatim>\<open>system_type\<close> and \<^verbatim>\<open>system_params\<close>.
\<close>

record simulation_data =
  sd_time :: "real list"
  sd_setpoint :: "real list"
  sd_output :: "real list"
  sd_control_signal :: "real list"
  sd_error :: "real list"
  sd_pid_params :: "real \<times> real \<times> real"
  sd_system_type :: string
  sd_system_params :: "string \<rightharpoonup> real"

text \<open>
  The fixed time step \<^verbatim>\<open>dt = 0.01\<close> and \<^verbatim>\<open>time_steps = int(sim_time / dt)\<close>, with the
  exact quotient. The quotient of doubles can fall just below an integer that the
  exact quotient reaches (\<^verbatim>\<open>1.13 / 0.01\<close> is \<^verbatim>\<open>112.99999999999999\<close>), and the code then
  allocates one sample fewer; \<^verbatim>\<open>1.0 / 0.01\<close> is exactly \<^verbatim>\<open>100.0\<close>.
\<close>

definition sim_dt :: real where
  "sim_dt = 1 / 100"

definition time_steps :: "real \<Rightarrow> int" where
  "time_steps sim_time = py_int (sim_time / sim_dt)"

definition run_simulation ::
  "real \<Rightarrow> real \<Rightarrow> real \<Rightarrow> real \<Rightarrow> real \<Rightarrow> string \<Rightarrow> (string \<rightharpoonup> real)
     \<Rightarrow> py_error + simulation_data" where
  "run_simulation kp ki kd setpoint sim_time stype system_params =
     (let pid0 = PIDController_init kp ki kd None in
      bind_err (SystemSimulation_init stype system_params) (\<lambda>sys0.
      let dt = sim_dt; n = time_steps sim_time in
      bind_err (np_linspace 0 sim_time n) (\<lambda>time_array.
      bind_err (np_full n setpoint) (\<lambda>setpoint_array.
      bind_err (np_zeros n) (\<lambda>out0.
      bind_err (np_zeros n) (\<lambda>ctl0.
      bind_err (np_zeros n) (\<lambda>err0.
      bind_err (setitem out0 0 0) (\<lambda>out1.
      bind_err (sim_loop setpoint dt
                  \<lparr>pid = pid0, system_sim = sys0, output_arr = out1,
                   control_signal = ctl0, error_arr = err0\<rparr>
                  [1..n - 1]) (\<lambda>v.
      bind_err (getitem (output_arr v) (- 1)) (\<lambda>y_last.
      bind_err (setitem (error_arr v) (- 1) (setpoint - y_last)) (\<lambda>err.
      bind_err (getitem (control_signal v) (- 2)) (\<lambda>u_prev.
      bind_err (setitem (control_signal v) (- 1) u_prev) (\<lambda>ctl.
        Inr \<lparr>sd_time = time_array, sd_setpoint = setpoint_array,
             sd_output = output_arr v, sd_control_signal = ctl, sd_error = err,
             sd_pid_params = (kp, ki, kd), sd_system_type = stype,
             sd_system_params = system_params\<rparr>)))))))))))))"

text \<open>
  A plant as the constructor leaves it, with a time constant that can be divided by:
  the type string is one of the three branches and the attributes of that branch exist.
\<close>

definition plant_ready :: "SystemSimulation \<Rightarrow> bool" where
  "plant_ready p =
     (if system_type p = ''First Order'' then
        gain p \<noteq> None \<and> time_constant p \<noteq> None \<and> time_constant p \<noteq> Some 0
      else if system_type p = ''Second Order'' then
        natural_freq p \<noteq> None \<and> damping p \<noteq> None \<and> gain p \<noteq> None
      else system_type p = ''Integrator'' \<and> gain p \<noteq> None)"

subsection \<open>Double precision\<close>

text \<open>
  A Python float is an IEEE 754 binary64 number. The definitions above compute with
  exact reals; the definitions of this part compute what the same methods compute in
  double precision. A float is a finite real, an infinity or a NaN; the two zeros
  are one value (this code cannot tell them apart: it compares with \<open>0\<close> and raises
  on a division by either). A finite float is carried as the real it denotes, and
  every arithmetic operation rounds its exact result to a double.
\<close>

datatype pyfloat = Finite real | Inf_pos | Inf_neg | NaN

text \<open>Rounding to the nearest integer, a tie to the even one.\<close>

definition rne :: "real \<Rightarrow> int" where
  "rne x =
     (let f = \<lfloor>x\<rfloor>; r = x - of_int f
      in if r < 1 / 2 then f else if r > 1 / 2 then f + 1 else if even f then f else f + 1)"

text \<open>
  The exponent \<open>e\<close> of the unit in the last place of a magnitude \<open>a\<close>: the least
  \<open>e \<ge> -1074\<close> with \<open>a < 2\<^sup>5\<^sup>3\<cdot>2\<^sup>e\<close>, at most \<open>971\<close>. Subnormal magnitudes share
  \<open>e = -1074\<close>.
\<close>

fun ulp_search :: "nat \<Rightarrow> int \<Rightarrow> real \<Rightarrow> int" where
  "ulp_search 0 e a = e"
| "ulp_search (Suc n) e a = (if a < 2 powi (e + 53) then e else ulp_search n (e + 1) a)"

definition ulp_exp :: "real \<Rightarrow> int" where
  "ulp_exp a = ulp_search 2045 (- 1074) a"

text \<open>
  The double nearest to a real (round to nearest, ties to even): the real is rounded
  to a multiple of its unit in the last place, and a result of magnitude \<open>2\<^sup>1\<^sup>0\<^sup>2\<^sup>4\<close> or
  more is an infinity.
\<close>

definition fl :: "real \<Rightarrow> pyfloat" where
  "fl x =
     (let e = ulp_exp \<bar>x\<bar>;
          y = of_int (rne (x / 2 powi e)) * 2 powi e
      in if \<bar>y\<bar> \<ge> 2 ^ 1024 then (if x > 0 then Inf_pos else Inf_neg) else Finite y)"

text \<open>The operators \<^verbatim>\<open>+\<close>, \<^verbatim>\<open>-\<close>, \<^verbatim>\<open>*\<close>, \<^verbatim>\<open>/\<close>, \<^verbatim>\<open><\<close> and \<^verbatim>\<open>>\<close> of Python floats.\<close>

fun fadd :: "pyfloat \<Rightarrow> pyfloat \<Rightarrow> pyfloat" where
  "fadd (Finite a) (Finite b) = fl (a + b)"
| "fadd NaN y = NaN"
| "fadd x NaN = NaN"
| "fadd Inf_pos Inf_neg = NaN"
| "fadd Inf_neg Inf_pos = NaN"
| "fadd Inf_pos y = Inf_pos"
| "fadd x Inf_pos = Inf_pos"
| "fadd Inf_neg y = Inf_neg"
| "fadd x Inf_neg = Inf_neg"

fun fneg :: "pyfloat \<Rightarrow> pyfloat" where
  "fneg (Finite a) = Finite (- a)"
| "fneg Inf_pos = Inf_neg"
| "fneg Inf_neg = Inf_pos"
| "fneg NaN = NaN"

definition fsub :: "pyfloat \<Rightarrow> pyfloat \<Rightarrow> pyfloat" where
  "fsub x y = fadd x (fneg y)"

fun fmul :: "pyfloat \<Rightarrow> pyfloat \<Rightarrow> pyfloat" where
  "fmul (Finite a) (Finite b) = fl (a * b)"
| "fmul NaN y = NaN"
| "fmul x NaN = NaN"
| "fmul (Finite a) Inf_pos = (if a = 0 then NaN else if a > 0 then Inf_pos else Inf_neg)"
| "fmul (Finite a) Inf_neg = (if a = 0 then NaN else if a > 0 then Inf_neg else Inf_pos)"
| "fmul Inf_pos (Finite b) = (if b = 0 then NaN else if b > 0 then Inf_pos else Inf_neg)"
| "fmul Inf_neg (Finite b) = (if b = 0 then NaN else if b > 0 then Inf_neg else Inf_pos)"
| "fmul Inf_pos Inf_pos = Inf_pos"
| "fmul Inf_neg Inf_neg = Inf_pos"
| "fmul Inf_pos Inf_neg = Inf_neg"
| "fmul Inf_neg Inf_pos = Inf_neg"

text \<open>A zero divisor raises \<^verbatim>\<open>ZeroDivisionError\<close> whatever the dividend is.\<close>

fun fdiv :: "pyfloat \<Rightarrow> pyfloat \<Rightarrow> py_error + pyfloat" where
  "fdiv x (Finite b) =
     (if b = 0 then Inl ZeroDivisionError
      else (case x of
              Finite a \<Rightarrow> Inr (fl (a / b))
            | Inf_pos \<Rightarrow> Inr (if b > 0 then Inf_pos else Inf_neg)
            | Inf_neg \<Rightarrow> Inr (if b > 0 then Inf_neg else Inf_pos)
            | NaN \<Rightarrow> Inr NaN))"
| "fdiv x NaN = Inr NaN"
| "fdiv (Finite a) y = Inr (Finite 0)"
| "fdiv x y = Inr NaN"

fun flt :: "pyfloat \<Rightarrow> pyfloat \<Rightarrow> bool" where
  "flt (Finite a) (Finite b) = (a < b)"
| "flt NaN y = False"
| "flt x NaN = False"
| "flt Inf_pos y = False"
| "flt x Inf_neg = False"
| "flt x y = True"

definition fgt :: "pyfloat \<Rightarrow> pyfloat \<Rightarrow> bool" where
  "fgt x y = flt y x"

subsection \<open>\<^verbatim>\<open>PIDController.update\<close> in double precision\<close>

record PIDController_f =
  Kp_f :: pyfloat
  Ki_f :: pyfloat
  Kd_f :: pyfloat
  integral_f :: pyfloat
  previous_error_f :: pyfloat
  output_limits_f :: "(pyfloat \<times> pyfloat) option"
  proportional_term_f :: pyfloat
  integral_term_f :: pyfloat
  derivative_term_f :: pyfloat

definition PIDController_init_f ::
  "pyfloat \<Rightarrow> pyfloat \<Rightarrow> pyfloat \<Rightarrow> (pyfloat \<times> pyfloat) option \<Rightarrow> PIDController_f" where
  "PIDController_init_f kp ki kd limits =
     \<lparr>Kp_f = kp, Ki_f = ki, Kd_f = kd,
      integral_f = Finite 0, previous_error_f = Finite 0, output_limits_f = limits,
      proportional_term_f = Finite 0, integral_term_f = Finite 0,
      derivative_term_f = Finite 0\<rparr>"

text \<open>
  \<^verbatim>\<open>(bound - self.proportional_term - self.derivative_term) / self.Ki if self.Ki != 0 else 0\<close>:
  two subtractions from left to right, then the division.
\<close>

definition anti_windup_f :: "PIDController_f \<Rightarrow> pyfloat \<Rightarrow> py_error + PIDController_f" where
  "anti_windup_f self bound =
     (if Ki_f self \<noteq> Finite 0 then
        (case fdiv (fsub (fsub bound (proportional_term_f self)) (derivative_term_f self))
                (Ki_f self) of
           Inl e \<Rightarrow> Inl e
         | Inr v \<Rightarrow> Inr (self\<lparr>integral_f := v\<rparr>))
      else Inr (self\<lparr>integral_f := Finite 0\<rparr>))"

definition apply_limits_f ::
  "PIDController_f \<Rightarrow> pyfloat \<Rightarrow> py_error + (pyfloat \<times> PIDController_f)" where
  "apply_limits_f self out =
     (case output_limits_f self of
        None \<Rightarrow> Inr (out, self)
      | Some (min_output, max_output) \<Rightarrow>
          if fgt out max_output then
            (case anti_windup_f self max_output of
               Inl e \<Rightarrow> Inl e
             | Inr self' \<Rightarrow> Inr (max_output, self'))
          else if flt out min_output then
            (case anti_windup_f self min_output of
               Inl e \<Rightarrow> Inl e
             | Inr self' \<Rightarrow> Inr (min_output, self'))
          else Inr (out, self))"

text \<open>
  \<^verbatim>\<open>output = self.proportional_term + self.integral_term + self.derivative_term\<close> adds
  from left to right.
\<close>

definition PIDController_update_f ::
  "PIDController_f \<Rightarrow> pyfloat \<Rightarrow> pyfloat \<Rightarrow> py_error + (pyfloat \<times> PIDController_f)" where
  "PIDController_update_f self0 error dt =
     (let self1 = self0\<lparr>proportional_term_f := fmul (Kp_f self0) error\<rparr>;
          self2 = self1\<lparr>integral_f := fadd (integral_f self1) (fmul error dt)\<rparr>;
          self3 = self2\<lparr>integral_term_f := fmul (Ki_f self2) (integral_f self2)\<rparr>
      in case (if fgt dt (Finite 0) then fdiv (fsub error (previous_error_f self3)) dt
               else Inr (Finite 0)) of
           Inl e \<Rightarrow> Inl e
         | Inr derivative \<Rightarrow>
             (let self4 = self3\<lparr>derivative_term_f := fmul (Kd_f self3) derivative\<rparr>;
                  out = fadd (fadd (proportional_term_f self4) (integral_term_f self4))
                          (derivative_term_f self4)
              in case apply_limits_f self4 out of
                   Inl e \<Rightarrow> Inl e
                 | Inr (out', self5) \<Rightarrow> Inr (out', self5\<lparr>previous_error_f := error\<rparr>)))"

text \<open>
  The unsaturated output recomputed from a controller's stored integral and the
  proportional and derivative terms of its last update, with the expressions of
  \<^verbatim>\<open>update\<close>: \<^verbatim>\<open>P + Ki * integral + D\<close>.
\<close>

definition recomputed_output :: "PIDController_f \<Rightarrow> pyfloat" where
  "recomputed_output self =
     fadd (fadd (proportional_term_f self) (fmul (Ki_f self) (integral_f self)))
       (derivative_term_f self)"

subsection \<open>\<^verbatim>\<open>SystemSimulation._update_integrator\<close> in double precision\<close>

record SystemSimulation_f =
  system_type_f :: string
  params_f :: "string \<rightharpoonup> pyfloat"
  output_f :: pyfloat
  output_dot_f :: pyfloat
  previous_input_f :: pyfloat
  time_constant_f :: "pyfloat option"
  gain_f :: "pyfloat option"
  damping_f :: "pyfloat option"
  natural_freq_f :: "pyfloat option"

definition getattr_f :: "string \<Rightarrow> pyfloat option \<Rightarrow> py_error + pyfloat" where
  "getattr_f name field = (case field of None \<Rightarrow> Inl (AttributeError name) | Some v \<Rightarrow> Inr v)"

definition update_integrator_f ::
  "SystemSimulation_f \<Rightarrow> pyfloat \<Rightarrow> pyfloat \<Rightarrow> py_error + (pyfloat \<times> SystemSimulation_f)" where
  "update_integrator_f self input_signal dt =
     (case getattr_f ''gain'' (gain_f self) of
        Inl e \<Rightarrow> Inl e
      | Inr k \<Rightarrow>
          (let dydt = fmul k input_signal;
               self' = self\<lparr>output_f := fadd (output_f self) (fmul dydt dt)\<rparr>
           in Inr (output_f self', self')))"

text \<open>\<^verbatim>\<open>n\<close> calls with the same input and step; the last state.\<close>

fun update_integrator_times ::
  "nat \<Rightarrow> SystemSimulation_f \<Rightarrow> pyfloat \<Rightarrow> pyfloat \<Rightarrow> py_error + SystemSimulation_f" where
  "update_integrator_times 0 self u dt = Inr self"
| "update_integrator_times (Suc n) self u dt =
     (case update_integrator_f self u dt of
        Inl e \<Rightarrow> Inl e
      | Inr (y, self') \<Rightarrow> update_integrator_times n self' u dt)"

text \<open>
  A real that is zero or in the normal range of doubles: its rounding neither
  overflows nor loses precision to underflow.
\<close>

definition fl_ok :: "real \<Rightarrow> bool" where
  "fl_ok x = (x = 0 \<or> (2 powi (- 1022) \<le> \<bar>x\<bar> \<and> \<bar>x\<bar> < 2 ^ 1023))"

text \<open>\<open>x\<close> is such a real and \<open>y\<close> is the double it rounds to.\<close>

definition rounds_to :: "real \<Rightarrow> real \<Rightarrow> bool" where
  "rounds_to x y = (fl_ok x \<and> fl x = Finite y)"

text \<open>The unit roundoff of binary64.\<close>

definition unit_roundoff :: real where
  "unit_roundoff = 2 powi (- 53)"

section \<open>The controller\<close>

lemma anti_windup_Inr:
  "anti_windup s b =
     Inr (s\<lparr>integral :=
            (if Ki s \<noteq> 0 then (b - proportional_term s - derivative_term s) / Ki s else 0)\<rparr>)"
  by (simp add: anti_windup_def truediv_def)

text \<open>Everything before the limits block, as one state and one unsaturated output.\<close>

lemma update_via_limits:
  "PIDController_update s error dt =
     (case apply_limits
             (s\<lparr>proportional_term := Kp s * error,
                integral := integral s + error * dt,
                integral_term := Ki s * (integral s + error * dt),
                derivative_term :=
                  Kd s * (if dt > 0 then (error - previous_error s) / dt else 0)\<rparr>)
             (Kp s * error + Ki s * (integral s + error * dt)
                + Kd s * (if dt > 0 then (error - previous_error s) / dt else 0)) of
        Inl e \<Rightarrow> Inl e
      | Inr (out', s5) \<Rightarrow> Inr (out', s5\<lparr>previous_error := error\<rparr>))"
  by (simp add: PIDController_update_def truediv_def Let_def)

lemma apply_limits_total:
  "\<exists>out' s'. apply_limits s out = Inr (out', s') \<and> Kp s' = Kp s \<and> Ki s' = Ki s
      \<and> Kd s' = Kd s \<and> output_limits s' = output_limits s"
  by (auto simp add: apply_limits_def anti_windup_Inr split: option.splits)

text \<open>\<^verbatim>\<open>update\<close> raises nothing and leaves gains and limits alone.\<close>

lemma update_total:
  "\<exists>out s'. PIDController_update s error dt = Inr (out, s') \<and> Kp s' = Kp s \<and> Ki s' = Ki s
      \<and> Kd s' = Kd s \<and> output_limits s' = output_limits s"
proof -
  let ?s4 = "s\<lparr>proportional_term := Kp s * error,
                integral := integral s + error * dt,
                integral_term := Ki s * (integral s + error * dt),
                derivative_term :=
                  Kd s * (if dt > 0 then (error - previous_error s) / dt else 0)\<rparr>"
  let ?o = "Kp s * error + Ki s * (integral s + error * dt)
                + Kd s * (if dt > 0 then (error - previous_error s) / dt else 0)"
  obtain out' s' where r: "apply_limits ?s4 ?o = Inr (out', s')"
    and g: "Kp s' = Kp ?s4" "Ki s' = Ki ?s4" "Kd s' = Kd ?s4"
      "output_limits s' = output_limits ?s4"
    using apply_limits_total [of ?s4 ?o] by blast
  have "PIDController_update s error dt = Inr (out', s'\<lparr>previous_error := error\<rparr>)"
    by (simp only: update_via_limits r sum.case prod.case)
  with g show ?thesis by simp
qed

lemma update_all_total:
  "\<exists>outs s'. update_all s calls = Inr (outs, s') \<and> Kp s' = Kp s \<and> Ki s' = Ki s
      \<and> Kd s' = Kd s \<and> output_limits s' = output_limits s"
proof (induction calls arbitrary: s)
  case Nil
  show ?case by simp
next
  case (Cons c calls)
  obtain error dt where c: "c = (error, dt)" by (cases c)
  obtain out s1 where u: "PIDController_update s error dt = Inr (out, s1)"
    and g1: "Kp s1 = Kp s" "Ki s1 = Ki s" "Kd s1 = Kd s" "output_limits s1 = output_limits s"
    using update_total [of s error dt] by blast
  obtain outs s2 where a: "update_all s1 calls = Inr (outs, s2)"
    and g2: "Kp s2 = Kp s1" "Ki s2 = Ki s1" "Kd s2 = Kd s1"
      "output_limits s2 = output_limits s1"
    using Cons.IH [of s1] by blast
  have "update_all s (c # calls) = Inr ((out, get_components s1) # outs, s2)"
    by (simp add: c u a)
  with g1 g2 show ?case by simp
qed

lemma reset_eq_init:
  "PIDController_reset s = PIDController_init (Kp s) (Ki s) (Kd s) (output_limits s)"
  by (simp add: PIDController_reset_def PIDController_init_def)

text \<open>
  Claim C3. An \<^verbatim>\<open>update(error, dt)\<close> with \<open>dt > 0\<close> whose unsaturated output \<open>out\<close> is
  not clamped (no limits are set, or \<open>out\<close> is neither above the upper nor below the
  lower limit) returns \<open>Kp\<cdot>error + Ki\<cdot>(integral\<^sub>0 + error\<cdot>dt) + Kd\<cdot>(error - previous_error\<^sub>0)/dt\<close>;
  afterwards the stored integral is \<open>integral\<^sub>0 + error\<cdot>dt\<close>, \<open>previous_error\<close> is the
  current error, and the three component values are those of this step.
\<close>

theorem update_unclamped:
  assumes "dt > 0"
    and "out = Kp s * error + Ki s * (integral s + error * dt)
                 + Kd s * ((error - previous_error s) / dt)"
    and "case output_limits s of None \<Rightarrow> True | Some (lo, hi) \<Rightarrow> \<not> out > hi \<and> \<not> out < lo"
  shows "PIDController_update s error dt =
           Inr (out, s\<lparr>proportional_term := Kp s * error,
                       integral := integral s + error * dt,
                       integral_term := Ki s * (integral s + error * dt),
                       derivative_term := Kd s * ((error - previous_error s) / dt),
                       previous_error := error\<rparr>)"
  using assms
  by (auto simp add: update_via_limits apply_limits_def split: option.splits)

theorem update_unclamped_witness:
  "(0 :: real) < 1 / 2 \<and>
   PIDController_update (PIDController_init 2 1 1 (Some (- 100, 100))) 3 (1 / 2) =
     Inr (27 / 2,
          \<lparr>Kp = 2, Ki = 1, Kd = 1, integral = 3 / 2, previous_error = 3,
           output_limits = Some (- 100, 100),
           proportional_term = 6, integral_term = 3 / 2, derivative_term = 6\<rparr>)"
  using update_unclamped [where s = "PIDController_init 2 1 1 (Some (- 100, 100))"
      and error = 3 and dt = "1 / 2" and out = "27 / 2"]
  by (simp add: PIDController_init_def)

text \<open>
  Claim C7. With \<open>dt = 0\<close> an \<^verbatim>\<open>update\<close> returns without an exception for every error
  and every stored state; the derivative component is \<open>0\<close>, and the returned value is
  \<open>P + I + 0\<close> with \<open>P = Kp\<cdot>error\<close> and \<open>I = Ki\<cdot>integral\<close>, clamped when limits are set.
\<close>

theorem update_dt_zero:
  "\<exists>out s'. PIDController_update s error 0 = Inr (out, s')
     \<and> derivative_term s' = 0
     \<and> proportional_term s' = Kp s * error
     \<and> integral_term s' = Ki s * integral s
     \<and> out = (case output_limits s of
                None \<Rightarrow> Kp s * error + Ki s * integral s + 0
              | Some (lo, hi) \<Rightarrow>
                  if Kp s * error + Ki s * integral s + 0 > hi then hi
                  else if Kp s * error + Ki s * integral s + 0 < lo then lo
                  else Kp s * error + Ki s * integral s + 0)"
  by (auto simp add: update_via_limits apply_limits_def anti_windup_Inr split: option.splits)

text \<open>
  Claim C8. In whatever state \<open>s\<close> a controller is, after \<^verbatim>\<open>reset()\<close> every sequence
  of updates yields the outputs and component values that a freshly constructed
  controller with the gains and limits of \<open>s\<close> yields, and \<^verbatim>\<open>reset\<close> changes neither
  the gains nor the limits. In particular, for a controller constructed with gains
  \<open>(kp, ki, kd)\<close> and optional limits and used for any sequence \<open>history\<close> of
  updates: the updates all return, the gains and limits are still those of the
  construction, and after \<^verbatim>\<open>reset()\<close> it behaves as the freshly constructed one.
\<close>

theorem reset_as_fresh:
  "update_all (PIDController_reset s) calls
     = update_all (PIDController_init (Kp s) (Ki s) (Kd s) (output_limits s)) calls
   \<and> Kp (PIDController_reset s) = Kp s \<and> Ki (PIDController_reset s) = Ki s
   \<and> Kd (PIDController_reset s) = Kd s
   \<and> output_limits (PIDController_reset s) = output_limits s
   \<and> (\<exists>outs s'. update_all (PIDController_init kp ki kd limits) history = Inr (outs, s')
         \<and> Kp s' = kp \<and> Ki s' = ki \<and> Kd s' = kd \<and> output_limits s' = limits
         \<and> update_all (PIDController_reset s') calls
             = update_all (PIDController_init kp ki kd limits) calls)"
proof -
  obtain outs s' where a:
      "update_all (PIDController_init kp ki kd limits) history = Inr (outs, s')"
    and g: "Kp s' = Kp (PIDController_init kp ki kd limits)"
      "Ki s' = Ki (PIDController_init kp ki kd limits)"
      "Kd s' = Kd (PIDController_init kp ki kd limits)"
      "output_limits s' = output_limits (PIDController_init kp ki kd limits)"
    using update_all_total [of "PIDController_init kp ki kd limits" history] by blast
  have g': "Kp s' = kp" "Ki s' = ki" "Kd s' = kd" "output_limits s' = limits"
    using g by (simp_all add: PIDController_init_def)
  have "PIDController_reset s' = PIDController_init kp ki kd limits"
    by (simp add: reset_eq_init g')
  with a g' have used: "\<exists>outs s'.
      update_all (PIDController_init kp ki kd limits) history = Inr (outs, s')
      \<and> Kp s' = kp \<and> Ki s' = ki \<and> Kd s' = kd \<and> output_limits s' = limits
      \<and> update_all (PIDController_reset s') calls
          = update_all (PIDController_init kp ki kd limits) calls"
    by simp
  have "update_all (PIDController_reset s) calls
          = update_all (PIDController_init (Kp s) (Ki s) (Kd s) (output_limits s)) calls"
    by (simp add: reset_eq_init)
  moreover have "Kp (PIDController_reset s) = Kp s" "Ki (PIDController_reset s) = Ki s"
    "Kd (PIDController_reset s) = Kd s"
    "output_limits (PIDController_reset s) = output_limits s"
    by (simp_all add: PIDController_reset_def)
  ultimately show ?thesis using used by simp
qed

section \<open>The plants\<close>

lemma init_first_order:
  "SystemSimulation_init ''First Order'' ps =
     Inr \<lparr>system_type = ''First Order'', params = ps,
          output = 0, output_dot = 0, previous_input = 0,
          time_constant = Some (case ps ''time_constant'' of None \<Rightarrow> 1 | Some v \<Rightarrow> v),
          gain = Some (case ps ''gain'' of None \<Rightarrow> 1 | Some v \<Rightarrow> v),
          damping = None, natural_freq = None\<rparr>"
  by (simp add: SystemSimulation_init_def initialize_system_def dict_get_def)

lemma init_second_order:
  "SystemSimulation_init ''Second Order'' ps =
     Inr \<lparr>system_type = ''Second Order'', params = ps,
          output = 0, output_dot = 0, previous_input = 0,
          time_constant = None,
          gain = Some (case ps ''gain'' of None \<Rightarrow> 1 | Some v \<Rightarrow> v),
          damping = Some (case ps ''damping'' of None \<Rightarrow> 1 / 2 | Some v \<Rightarrow> v),
          natural_freq = Some (case ps ''natural_freq'' of None \<Rightarrow> 1 | Some v \<Rightarrow> v)\<rparr>"
  by (simp add: SystemSimulation_init_def initialize_system_def dict_get_def)

lemma init_integrator:
  "SystemSimulation_init ''Integrator'' ps =
     Inr \<lparr>system_type = ''Integrator'', params = ps,
          output = 0, output_dot = 0, previous_input = 0,
          time_constant = None,
          gain = Some (case ps ''gain'' of None \<Rightarrow> 1 | Some v \<Rightarrow> v),
          damping = None, natural_freq = None\<rparr>"
  by (simp add: SystemSimulation_init_def initialize_system_def dict_get_def)

lemma init_unknown:
  "st \<noteq> ''First Order'' \<Longrightarrow> st \<noteq> ''Second Order'' \<Longrightarrow> st \<noteq> ''Integrator'' \<Longrightarrow>
   SystemSimulation_init st ps = Inl (ValueError (''Unknown system type: '' @ st))"
  by (simp add: SystemSimulation_init_def initialize_system_def)

text \<open>
  Claim C5. Constructing a plant with a type string other than \<^verbatim>\<open>First Order\<close>,
  \<^verbatim>\<open>Second Order\<close> and \<^verbatim>\<open>Integrator\<close> raises the \<^verbatim>\<open>ValueError\<close> "Unknown system
  type: ..." from the constructor, so no plant of any variant comes into being;
  with one of the three strings the constructor returns a plant of that type.
\<close>

theorem init_unknown_type:
  "(st \<notin> {''First Order'', ''Second Order'', ''Integrator''} \<longrightarrow>
      SystemSimulation_init st ps = Inl (ValueError (''Unknown system type: '' @ st)))
   \<and> (st \<in> {''First Order'', ''Second Order'', ''Integrator''} \<longrightarrow>
      (\<exists>p. SystemSimulation_init st ps = Inr p \<and> system_type p = st))"
  using init_first_order [of ps] init_second_order [of ps] init_integrator [of ps]
    init_unknown [of st ps]
  by auto

theorem init_unknown_type_witness:
  "SystemSimulation_init ''Thermal'' Map.empty
     = Inl (ValueError ''Unknown system type: Thermal'')
   \<and> (\<exists>p. SystemSimulation_init ''First Order'' Map.empty = Inr p
          \<and> system_type p = ''First Order'')"
  using init_unknown_type [of "''Thermal''" Map.empty]
    init_unknown_type [of "''First Order''" Map.empty]
  by simp

text \<open>
  Claim C10. For each of the three recognised type strings the constructor returns a
  plant whatever the parameter dictionary holds: a missing \<^verbatim>\<open>time_constant\<close>, \<^verbatim>\<open>gain\<close>
  or \<^verbatim>\<open>natural_freq\<close> becomes \<open>1.0\<close> and a missing \<^verbatim>\<open>damping\<close> becomes \<open>0.5\<close>. The
  constructor raises exactly when the type string is none of the three.
\<close>

theorem init_defaults:
  "SystemSimulation_init ''First Order'' ps =
     Inr \<lparr>system_type = ''First Order'', params = ps,
          output = 0, output_dot = 0, previous_input = 0,
          time_constant = Some (case ps ''time_constant'' of None \<Rightarrow> 1 | Some v \<Rightarrow> v),
          gain = Some (case ps ''gain'' of None \<Rightarrow> 1 | Some v \<Rightarrow> v),
          damping = None, natural_freq = None\<rparr>
   \<and> SystemSimulation_init ''Second Order'' ps =
     Inr \<lparr>system_type = ''Second Order'', params = ps,
          output = 0, output_dot = 0, previous_input = 0,
          time_constant = None,
          gain = Some (case ps ''gain'' of None \<Rightarrow> 1 | Some v \<Rightarrow> v),
          damping = Some (case ps ''damping'' of None \<Rightarrow> 1 / 2 | Some v \<Rightarrow> v),
          natural_freq = Some (case ps ''natural_freq'' of None \<Rightarrow> 1 | Some v \<Rightarrow> v)\<rparr>
   \<and> SystemSimulation_init ''Integrator'' ps =
     Inr \<lparr>system_type = ''Integrator'', params = ps,
          output = 0, output_dot = 0, previous_input = 0,
          time_constant = None,
          gain = Some (case ps ''gain'' of None \<Rightarrow> 1 | Some v \<Rightarrow> v),
          damping = None, natural_freq = None\<rparr>
   \<and> ((\<exists>e. SystemSimulation_init st ps = Inl e)
        = (st \<notin> {''First Order'', ''Second Order'', ''Integrator''}))"
  using init_first_order [of ps] init_second_order [of ps] init_integrator [of ps]
    init_unknown [of st ps]
  by auto

theorem init_defaults_witness:
  "SystemSimulation_init ''Second Order'' [''gain'' \<mapsto> 3] =
     Inr \<lparr>system_type = ''Second Order'', params = [''gain'' \<mapsto> 3],
          output = 0, output_dot = 0, previous_input = 0,
          time_constant = None, gain = Some 3, damping = Some (1 / 2),
          natural_freq = Some 1\<rparr>
   \<and> (\<exists>e. SystemSimulation_init ''Thermal'' [''gain'' \<mapsto> 3] = Inl e)"
  using init_defaults [of "[''gain'' \<mapsto> 3]" "''Thermal''"]
  by simp

text \<open>
  Claim C4, as the code has it. A first-order plant whose time constant is \<open>0\<close> fails
  at its first \<^verbatim>\<open>update\<close> (called with Python floats) with \<^verbatim>\<open>ZeroDivisionError\<close>,
  raised by the division \<open>(K\<cdot>u - y)/\<tau>\<close> itself; for \<open>\<tau> \<noteq> 0\<close> the update is the
  Euler step \<open>y += dt\<cdot>(K\<cdot>u - y)/\<tau>\<close> and returns the new \<open>y\<close>.
\<close>

theorem first_order_step:
  assumes "system_type p = ''First Order''"
    and "gain p = Some k" and "time_constant p = Some tau"
  shows "SystemSimulation_update p u dt =
           (if tau = 0 then Inl ZeroDivisionError
            else Inr (Some (output p + dt * ((k * u - output p) / tau)),
                      p\<lparr>output := output p + dt * ((k * u - output p) / tau)\<rparr>))"
  using assms
  by (simp add: SystemSimulation_update_def update_first_order_def getattr_def truediv_def
      Let_def algebra_simps)

theorem first_order_step_witness:
  "SystemSimulation_update
     \<lparr>system_type = ''First Order'', params = Map.empty,
      output = 1, output_dot = 0, previous_input = 0,
      time_constant = Some 2, gain = Some 3, damping = None, natural_freq = None\<rparr>
     5 (1 / 10)
   = Inr (Some (17 / 10),
          \<lparr>system_type = ''First Order'', params = Map.empty,
           output = 17 / 10, output_dot = 0, previous_input = 0,
           time_constant = Some 2, gain = Some 3, damping = None, natural_freq = None\<rparr>)
   \<and> SystemSimulation_update
     \<lparr>system_type = ''First Order'', params = Map.empty,
      output = 1, output_dot = 0, previous_input = 0,
      time_constant = Some 0, gain = Some 3, damping = None, natural_freq = None\<rparr>
     5 (1 / 10)
   = Inl ZeroDivisionError"
  using first_order_step [where p = "\<lparr>system_type = ''First Order'', params = Map.empty,
      output = 1, output_dot = 0, previous_input = 0,
      time_constant = Some 2, gain = Some 3, damping = None, natural_freq = None\<rparr>"
      and k = 3 and tau = 2 and u = 5 and dt = "1 / 10"]
    first_order_step [where p = "\<lparr>system_type = ''First Order'', params = Map.empty,
      output = 1, output_dot = 0, previous_input = 0,
      time_constant = Some 0, gain = Some 3, damping = None, natural_freq = None\<rparr>"
      and k = 3 and tau = 0 and u = 5 and dt = "1 / 10"]
  by simp

text \<open>
  Claim C4 as stated fails: the code has no guard and no parameter error of its own.
  A first-order plant constructed with \<^verbatim>\<open>time_constant = 0\<close> is accepted, and its
  first \<^verbatim>\<open>update\<close> ends in \<^verbatim>\<open>ZeroDivisionError\<close>, the exception of the division and
  not the \<^verbatim>\<open>ValueError\<close> with which this class reports a rejected argument.
\<close>

theorem first_order_zero_tau_counterexample:
  "SystemSimulation_init ''First Order'' [''time_constant'' \<mapsto> 0] =
     Inr \<lparr>system_type = ''First Order'', params = [''time_constant'' \<mapsto> 0],
          output = 0, output_dot = 0, previous_input = 0,
          time_constant = Some 0, gain = Some 1, damping = None, natural_freq = None\<rparr>
   \<and> SystemSimulation_update
       \<lparr>system_type = ''First Order'', params = [''time_constant'' \<mapsto> 0],
        output = 0, output_dot = 0, previous_input = 0,
        time_constant = Some 0, gain = Some 1, damping = None, natural_freq = None\<rparr>
       1 (1 / 100)
     = Inl ZeroDivisionError"
  by (simp add: init_first_order SystemSimulation_update_def update_first_order_def
      getattr_def truediv_def)

text \<open>
  Claim C6. A second-order plant in state \<open>(y, y')\<close> is taken by \<^verbatim>\<open>update(u, dt)\<close> to
  \<open>(y + dt\<cdot>y', y' + dt\<cdot>(-\<omega>\<^sub>n\<^sup>2\<cdot>y - 2\<zeta>\<cdot>\<omega>\<^sub>n\<cdot>y' + \<omega>\<^sub>n\<^sup>2\<cdot>K\<cdot>u))\<close>, both increments
  computed from the state before the call, and the call returns the new \<open>y\<close>.
\<close>

theorem second_order_step:
  assumes "system_type p = ''Second Order''"
    and "natural_freq p = Some wn" and "damping p = Some zeta" and "gain p = Some k"
    and "output p = y" and "output_dot p = yd"
  shows "SystemSimulation_update p u dt =
           Inr (Some (y + dt * yd),
                p\<lparr>output := y + dt * yd,
                  output_dot :=
                    yd + dt * (- (wn\<^sup>2) * y - 2 * zeta * wn * yd + wn\<^sup>2 * k * u)\<rparr>)"
  using assms
  by (simp add: SystemSimulation_update_def update_second_order_def getattr_def Let_def
      power2_eq_square algebra_simps)

theorem second_order_step_witness:
  "SystemSimulation_update
     \<lparr>system_type = ''Second Order'', params = Map.empty,
      output = 1, output_dot = 3, previous_input = 0,
      time_constant = None, gain = Some 1, damping = Some (1 / 2), natural_freq = Some 2\<rparr>
     1 (1 / 10)
   = Inr (Some (13 / 10),
          \<lparr>system_type = ''Second Order'', params = Map.empty,
           output = 13 / 10, output_dot = 12 / 5, previous_input = 0,
           time_constant = None, gain = Some 1, damping = Some (1 / 2),
           natural_freq = Some 2\<rparr>)"
  using second_order_step [where p = "\<lparr>system_type = ''Second Order'', params = Map.empty,
      output = 1, output_dot = 3, previous_input = 0,
      time_constant = None, gain = Some 1, damping = Some (1 / 2), natural_freq = Some 2\<rparr>"
      and wn = 2 and zeta = "1 / 2" and k = 1 and y = 1 and yd = 3 and u = 1
      and dt = "1 / 10"]
  by simp

section \<open>The simulation loop\<close>


lemma bind_err_Inr [simp]: "bind_err (Inr v) f = f v"
  by (simp add: bind_err_def)

lemma bind_err_Inl [simp]: "bind_err (Inl e) f = Inl e"
  by (simp add: bind_err_def)

lemma getitem_in_range:
  "0 \<le> i \<Longrightarrow> i < int (length a) \<Longrightarrow> getitem a i = Inr (a ! nat i)"
  by (simp add: getitem_def norm_index_def)

lemma setitem_in_range:
  "0 \<le> i \<Longrightarrow> i < int (length a) \<Longrightarrow> setitem a i v = Inr (a[nat i := v])"
  by (simp add: setitem_def norm_index_def)

lemma getitem_from_end:
  "0 < k \<Longrightarrow> k \<le> int (length a) \<Longrightarrow> getitem a (- k) = Inr (a ! nat (int (length a) - k))"
  by (simp add: getitem_def norm_index_def)

lemma setitem_from_end:
  "0 < k \<Longrightarrow> k \<le> int (length a) \<Longrightarrow>
   setitem a (- k) v = Inr (a[nat (int (length a) - k) := v])"
  by (simp add: setitem_def norm_index_def)

text \<open>A ready plant accepts every update and stays ready.\<close>

lemma plant_ready_cases:
  assumes "plant_ready p"
  shows "system_type p = ''First Order'' \<or> system_type p = ''Second Order''
           \<or> system_type p = ''Integrator''"
  using assms unfolding plant_ready_def by meson

lemma first_order_ready:
  assumes "plant_ready p" "system_type p = ''First Order''"
  shows "\<exists>y p'. SystemSimulation_update p u dt = Inr (Some y, p') \<and> plant_ready p'"
proof -
  from assms obtain k tau where "gain p = Some k" "time_constant p = Some tau" "tau \<noteq> 0"
    by (auto simp add: plant_ready_def)
  then show ?thesis using assms(2)
    by (simp add: SystemSimulation_update_def update_first_order_def getattr_def truediv_def
        Let_def plant_ready_def)
qed

lemma second_order_ready:
  assumes "plant_ready p" "system_type p = ''Second Order''"
  shows "\<exists>y p'. SystemSimulation_update p u dt = Inr (Some y, p') \<and> plant_ready p'"
proof -
  from assms obtain wn zeta k where
    "natural_freq p = Some wn" "damping p = Some zeta" "gain p = Some k"
    by (auto simp add: plant_ready_def)
  then show ?thesis using assms(2)
    by (simp add: SystemSimulation_update_def update_second_order_def getattr_def
        Let_def plant_ready_def)
qed

lemma integrator_ready:
  assumes "plant_ready p" "system_type p = ''Integrator''"
  shows "\<exists>y p'. SystemSimulation_update p u dt = Inr (Some y, p') \<and> plant_ready p'"
proof -
  from assms obtain k where "gain p = Some k"
    by (auto simp add: plant_ready_def)
  then show ?thesis using assms(2)
    by (simp add: SystemSimulation_update_def update_integrator_def getattr_def
        Let_def plant_ready_def)
qed

lemma plant_update_ready:
  assumes "plant_ready p"
  shows "\<exists>y p'. SystemSimulation_update p u dt = Inr (Some y, p') \<and> plant_ready p'"
  using plant_ready_cases [OF assms] first_order_ready [OF assms]
    second_order_ready [OF assms] integrator_ready [OF assms]
  by blast

text \<open>
  One pass of the loop body with an index inside the arrays: no exception, and the
  arrays keep their length.
\<close>

lemma sim_step_ok:
  assumes i: "1 \<le> i" "i < int n"
    and len: "length (output_arr v) = n" "length (control_signal v) = n" "length (error_arr v) = n"
    and rdy: "plant_ready (system_sim v)"
  shows "\<exists>v'. sim_step setpoint dt v i = Inr v' \<and> length (output_arr v') = n
           \<and> length (control_signal v') = n \<and> length (error_arr v') = n
           \<and> plant_ready (system_sim v')"
proof -
  let ?j = "nat (i - 1)"
  let ?err = "(error_arr v)[?j := setpoint - output_arr v ! ?j]"
  have g1: "getitem (output_arr v) (i - 1) = Inr (output_arr v ! ?j)"
    using i len by (simp add: getitem_in_range)
  have s1: "setitem (error_arr v) (i - 1) (setpoint - output_arr v ! ?j) = Inr ?err"
    using i len by (simp add: setitem_in_range)
  have g2: "getitem ?err (i - 1) = Inr (?err ! ?j)"
    using i len by (simp add: getitem_in_range)
  obtain u pid' where pu: "PIDController_update (pid v) (?err ! ?j) dt = Inr (u, pid')"
    using update_total [of "pid v" "?err ! ?j" dt] by blast
  let ?ctl = "(control_signal v)[?j := u]"
  have s2: "setitem (control_signal v) (i - 1) u = Inr ?ctl"
    using i len by (simp add: setitem_in_range)
  have g3: "getitem ?ctl (i - 1) = Inr (?ctl ! ?j)"
    using i len by (simp add: getitem_in_range)
  obtain y' sys' where su: "SystemSimulation_update (system_sim v) (?ctl ! ?j) dt = Inr (Some y', sys')"
    and rdy': "plant_ready sys'"
    using plant_update_ready [OF rdy, of "?ctl ! ?j" dt] by blast
  have s3: "setitem (output_arr v) i y' = Inr ((output_arr v)[nat i := y'])"
    using i len by (simp add: setitem_in_range)
  have "sim_step setpoint dt v i =
          Inr \<lparr>pid = pid', system_sim = sys', output_arr = (output_arr v)[nat i := y'],
               control_signal = ?ctl, error_arr = ?err\<rparr>"
    unfolding sim_step_def by (simp add: g1 s1 g2 pu s2 g3 su s3)
  with len rdy' show ?thesis by simp
qed

lemma sim_loop_ok:
  assumes "\<forall>i \<in> set is. 1 \<le> i \<and> i < int n"
    and "length (output_arr v) = n" "length (control_signal v) = n" "length (error_arr v) = n"
    and "plant_ready (system_sim v)"
  shows "\<exists>v'. sim_loop setpoint dt v is = Inr v' \<and> length (output_arr v') = n
           \<and> length (control_signal v') = n \<and> length (error_arr v') = n"
  using assms
proof (induction "is" arbitrary: v)
  case Nil
  then show ?case by simp
next
  case (Cons i "is")
  from Cons.prems have i: "1 \<le> i" "i < int n" by simp_all
  obtain v1 where st: "sim_step setpoint dt v i = Inr v1"
    and l1: "length (output_arr v1) = n" "length (control_signal v1) = n"
      "length (error_arr v1) = n" and r1: "plant_ready (system_sim v1)"
    using sim_step_ok [OF i Cons.prems(2,3,4,5), of setpoint dt] by blast
  from Cons.prems(1) have rest: "\<forall>i \<in> set is. 1 \<le> i \<and> i < int n" by simp
  from Cons.IH [OF rest l1 r1] st show ?case by simp
qed

text \<open>
  A run of at least two samples on a ready plant completes. The four arrays have
  \<open>time_steps sim_time\<close> entries, and the time axis is the \<^verbatim>\<open>linspace\<close> grid over
  \<open>[0, sim_time]\<close> with both end points.
\<close>

lemma run_simulation_ok:
  assumes n: "2 \<le> time_steps sim_time"
    and init: "SystemSimulation_init stype ps = Inr sys0"
    and rdy: "plant_ready sys0"
  shows "\<exists>d. run_simulation kp ki kd setpoint sim_time stype ps = Inr d
           \<and> sd_time d = map (\<lambda>i. real i * (sim_time / real_of_int (time_steps sim_time - 1)))
                            [0..<nat (time_steps sim_time)]
           \<and> length (sd_output d) = nat (time_steps sim_time)
           \<and> length (sd_control_signal d) = nat (time_steps sim_time)
           \<and> length (sd_error d) = nat (time_steps sim_time)"
proof -
  define N where "N = nat (time_steps sim_time)"
  have N: "time_steps sim_time = int N" "2 \<le> N"
    using n by (simp_all add: N_def)
  let ?z = "replicate N (0 :: real)"
  let ?time = "map (\<lambda>i. real i * (sim_time / real_of_int (int N - 1))) [0..<N]"
  have lin: "np_linspace 0 sim_time (int N) = Inr ?time"
    using N(2) by (simp add: np_linspace_def Let_def)
  have full: "np_full (int N) setpoint = Inr (replicate N setpoint)"
    by (simp add: np_full_def)
  have zeros: "np_zeros (int N) = Inr ?z"
    by (simp add: np_zeros_def np_full_def)
  have s0: "setitem ?z 0 0 = Inr ?z"
  proof -
    have "?z[0 := 0] = ?z"
      by (simp add: list_eq_iff_nth_eq nth_list_update)
    then show ?thesis
      using N(2) by (simp add: setitem_in_range)
  qed
  let ?v0 = "\<lparr>pid = PIDController_init kp ki kd None, system_sim = sys0, output_arr = ?z,
               control_signal = ?z, error_arr = ?z\<rparr>"
  have "\<forall>i \<in> set [1..int N - 1]. 1 \<le> i \<and> i < int N" by simp
  moreover have "length (output_arr ?v0) = N" "length (control_signal ?v0) = N"
    "length (error_arr ?v0) = N" "plant_ready (system_sim ?v0)"
    using rdy by simp_all
  ultimately obtain v where loop: "sim_loop setpoint sim_dt ?v0 [1..int N - 1] = Inr v"
    and len: "length (output_arr v) = N" "length (control_signal v) = N"
      "length (error_arr v) = N"
    using sim_loop_ok [of "[1..int N - 1]" N ?v0 setpoint sim_dt] by blast
  define y_last where "y_last = output_arr v ! (N - 1)"
  define u_prev where "u_prev = control_signal v ! (N - 2)"
  define err where "err = (error_arr v)[N - 1 := setpoint - y_last]"
  define ctl where "ctl = (control_signal v)[N - 1 := u_prev]"
  have g1: "getitem (output_arr v) (- 1) = Inr y_last"
    using N(2) len getitem_from_end [of 1 "output_arr v"]
    by (simp add: nat_diff_distrib' y_last_def)
  have s1: "setitem (error_arr v) (- 1) (setpoint - y_last) = Inr err"
    using N(2) len setitem_from_end [of 1 "error_arr v"]
    by (simp add: nat_diff_distrib' err_def)
  have g2: "getitem (control_signal v) (- 2) = Inr u_prev"
    using N(2) len getitem_from_end [of 2 "control_signal v"]
    by (simp add: nat_diff_distrib' u_prev_def)
  have s2: "setitem (control_signal v) (- 1) u_prev = Inr ctl"
    using N(2) len setitem_from_end [of 1 "control_signal v"]
    by (simp add: nat_diff_distrib' ctl_def)
  have run: "run_simulation kp ki kd setpoint sim_time stype ps =
          Inr \<lparr>sd_time = ?time, sd_setpoint = replicate N setpoint,
               sd_output = output_arr v, sd_control_signal = ctl, sd_error = err,
               sd_pid_params = (kp, ki, kd), sd_system_type = stype,
               sd_system_params = ps\<rparr>"
    unfolding run_simulation_def Let_def
    by (simp add: init N(1) lin full zeros s0 loop g1 s1 g2 s2)
  have "length ctl = N" "length err = N"
    using len by (simp_all add: ctl_def err_def)
  with len run show ?thesis by (simp add: N(1))
qed

text \<open>
  Claim C2, evaluated at a run of one second (\<open>Kp = 1\<close>, \<open>Ki = 0.1\<close>, \<open>Kd = 0.05\<close>,
  setpoint \<open>10\<close>, first-order plant with \<open>\<tau> = 1\<close>). The run completes and the four
  arrays have \<open>N = 100\<close> entries each, as claimed; but the time axis holds
  \<open>time[1] = 1/99\<close> and \<open>time[99] = 1\<close>, where \<open>i\<cdot>dt\<close> is \<open>0.01\<close> and \<open>0.99\<close>: the
  samples are spaced by \<open>sim_time / (N - 1)\<close>, not by the step \<open>dt\<close> of the loop.
\<close>

theorem simulation_time_axis:
  "\<exists>d. run_simulation 1 (1 / 10) (1 / 20) 10 1 ''First Order'' [''time_constant'' \<mapsto> 1] = Inr d
     \<and> length (sd_time d) = 100 \<and> length (sd_output d) = 100
     \<and> length (sd_control_signal d) = 100 \<and> length (sd_error d) = 100
     \<and> sd_time d ! 1 = 1 / 99 \<and> sd_time d ! 99 = 1
     \<and> (1 / 99 :: real) \<noteq> 1 * sim_dt"
proof -
  have n: "time_steps 1 = 100"
    by (simp add: time_steps_def sim_dt_def py_int_def)
  let ?sys = "\<lparr>system_type = ''First Order'', params = [''time_constant'' \<mapsto> 1],
          output = 0, output_dot = 0, previous_input = 0,
          time_constant = Some 1, gain = Some 1, damping = None, natural_freq = None\<rparr>"
  have init: "SystemSimulation_init ''First Order'' [''time_constant'' \<mapsto> 1] = Inr ?sys"
    by (simp add: init_first_order)
  have rdy: "plant_ready ?sys"
    by (simp add: plant_ready_def)
  have n2: "2 \<le> time_steps 1"
    by (simp add: n)
  obtain d where run: "run_simulation 1 (1 / 10) (1 / 20) 10 1 ''First Order''
        [''time_constant'' \<mapsto> 1] = Inr d"
    and t: "sd_time d = map (\<lambda>i. real i * (1 / real_of_int (time_steps 1 - 1)))
                            [0..<nat (time_steps 1)]"
    and len: "length (sd_output d) = nat (time_steps 1)"
      "length (sd_control_signal d) = nat (time_steps 1)"
      "length (sd_error d) = nat (time_steps 1)"
    using run_simulation_ok [OF n2 init rdy, of 1 "1 / 10" "1 / 20" 10] by blast
  have t': "sd_time d = map (\<lambda>i. real i * (1 / 99)) [0..<100]"
    using t by (simp add: n)
  have "length (sd_time d) = 100" "sd_time d ! 1 = 1 / 99" "sd_time d ! 99 = 1"
    by (simp_all add: t')
  with run len show ?thesis by (simp add: n sim_dt_def)
qed

section \<open>Rounding\<close>

lemma rne_error: "\<bar>of_int (rne x) - x\<bar> \<le> 1 / 2"
proof -
  have "of_int \<lfloor>x\<rfloor> \<le> x" "x < of_int \<lfloor>x\<rfloor> + 1" by linarith+
  then show ?thesis
    by (auto simp add: rne_def Let_def abs_le_iff)
qed

lemma ulp_search_ge: "e \<le> ulp_search n e a"
proof (induction n arbitrary: e)
  case 0 show ?case by simp
next
  case (Suc n)
  from Suc [of "e + 1"] show ?case by simp
qed

lemma ulp_search_le: "ulp_search n e a \<le> e + int n"
proof (induction n arbitrary: e)
  case 0 show ?case by simp
next
  case (Suc n)
  from Suc [of "e + 1"] show ?case by simp
qed

lemma ulp_search_upper:
  "ulp_search n e a < e + int n \<Longrightarrow> a < 2 powi (ulp_search n e a + 53)"
proof (induction n arbitrary: e)
  case 0 then show ?case by simp
next
  case (Suc n)
  show ?case
  proof (cases "a < 2 powi (e + 53)")
    case True then show ?thesis by simp
  next
    case False
    with Suc.prems have "ulp_search n (e + 1) a < (e + 1) + int n" by simp
    from Suc.IH [OF this] False show ?thesis by simp
  qed
qed

lemma ulp_search_lower:
  "e < ulp_search n e a \<Longrightarrow> 2 powi (ulp_search n e a + 52) \<le> a"
proof (induction n arbitrary: e)
  case 0 then show ?case by simp
next
  case (Suc n)
  show ?case
  proof (cases "a < 2 powi (e + 53)")
    case True with Suc.prems show ?thesis by simp
  next
    case False
    then have r: "ulp_search (Suc n) e a = ulp_search n (e + 1) a" by simp
    show ?thesis
    proof (cases "e + 1 < ulp_search n (e + 1) a")
      case True
      from Suc.IH [OF this] r show ?thesis by simp
    next
      case F2: False
      with ulp_search_ge [of "e + 1" n a] have "ulp_search n (e + 1) a = e + 1" by simp
      with r False show ?thesis by (simp add: add.commute add.left_commute)
    qed
  qed
qed

lemma ulp_exp_range: "- 1074 \<le> ulp_exp a" "ulp_exp a \<le> 971"
  using ulp_search_ge [of "- 1074" 2045 a] ulp_search_le [of 2045 "- 1074" a]
  by (simp_all add: ulp_exp_def)

lemma ulp_exp_upper:
  assumes "a < 2 ^ 1024"
  shows "a < 2 powi (ulp_exp a + 53)"
proof (cases "ulp_exp a = 971")
  case True
  with assms show ?thesis by simp
next
  case False
  with ulp_exp_range(2) [of a] have "ulp_search 2045 (- 1074) a < - 1074 + int 2045"
    by (simp add: ulp_exp_def)
  from ulp_search_upper [OF this] show ?thesis by (simp add: ulp_exp_def)
qed

lemma ulp_exp_lower:
  assumes "- 1074 < ulp_exp a"
  shows "2 powi (ulp_exp a + 52) \<le> a"
  using ulp_search_lower [of "- 1074" 2045 a] assms by (simp add: ulp_exp_def)

lemma powi_2_mono: "i \<le> j \<Longrightarrow> (2::real) powi i \<le> 2 powi j"
  by (rule power_int_increasing) simp_all

text \<open>The exponent is determined by the two bounds that the search establishes.\<close>

lemma ulp_exp_eqI:
  assumes e: "- 1074 \<le> e" "e \<le> 971"
    and up: "a < 2 powi (e + 53)"
    and lo: "e = - 1074 \<or> 2 powi (e + 52) \<le> a"
  shows "ulp_exp a = e"
proof (rule ccontr)
  assume ne: "ulp_exp a \<noteq> e"
  have a1024: "a < 2 ^ 1024"
  proof -
    have "(2::real) powi (e + 53) \<le> 2 powi 1024"
      using e by (intro powi_2_mono) simp
    with up show ?thesis by simp
  qed
  show False
  proof (cases "ulp_exp a < e")
    case True
    then have "e \<noteq> - 1074" using ulp_exp_range(1) [of a] by simp
    with lo have l: "2 powi (e + 52) \<le> a" by simp
    have "a < 2 powi (ulp_exp a + 53)" by (rule ulp_exp_upper [OF a1024])
    also have "\<dots> \<le> 2 powi (e + 52)" using True by (intro powi_2_mono) simp
    finally show False using l by simp
  next
    case False
    with ne have g: "e < ulp_exp a" by simp
    then have "- 1074 < ulp_exp a" using e by simp
    from ulp_exp_lower [OF this] have "2 powi (ulp_exp a + 52) \<le> a" .
    moreover have "(2::real) powi (e + 53) \<le> 2 powi (ulp_exp a + 52)"
      using g by (intro powi_2_mono) simp
    ultimately show False using up by simp
  qed
qed

text \<open>Rounding a given real, once its exponent and its rounded significand are known.\<close>

lemma fl_eval:
  assumes "- 1074 \<le> e" "e \<le> 971"
    and "\<bar>x\<bar> < 2 powi (e + 53)"
    and "e = - 1074 \<or> 2 powi (e + 52) \<le> \<bar>x\<bar>"
    and "rne (x / 2 powi e) = m"
    and "\<bar>of_int m * 2 powi e\<bar> < (2::real) ^ 1024"
  shows "fl x = Finite (of_int m * 2 powi e)"
proof -
  have "ulp_exp \<bar>x\<bar> = e" by (rule ulp_exp_eqI) (use assms in simp_all)
  with assms(5,6) show ?thesis by (simp add: fl_def Let_def)
qed

lemma fl_zero: "fl 0 = Finite 0"
  using fl_eval [of "- 1074" 0 0] by (simp add: rne_def)

text \<open>
  In the normal range rounding has a relative error of at most the unit roundoff,
  and zero is rounded to zero.
\<close>

lemma fl_ok_error:
  assumes "fl_ok x"
  shows "\<exists>y. fl x = Finite y \<and> \<bar>y - x\<bar> \<le> unit_roundoff * \<bar>x\<bar>"
proof (cases "x = 0")
  case True
  then show ?thesis by (simp add: fl_zero)
next
  case False
  with assms have lo: "2 powi (- 1022) \<le> \<bar>x\<bar>" and hi: "\<bar>x\<bar> < 2 ^ 1023"
    by (simp_all add: fl_ok_def)
  define e where "e = ulp_exp \<bar>x\<bar>"
  define s :: real where "s = 2 powi e"
  define y where "y = of_int (rne (x / s)) * s"
  have s_pos: "0 < s" by (simp add: s_def)
  have e_range: "- 1074 \<le> e" "e \<le> 971"
    using ulp_exp_range [of "\<bar>x\<bar>"] by (simp_all add: e_def)
  have "\<bar>y - x\<bar> = \<bar>of_int (rne (x / s)) - x / s\<bar> * s"
  proof -
    have "y - x = (of_int (rne (x / s)) - x / s) * s"
      using s_pos by (simp add: y_def algebra_simps)
    then show ?thesis using s_pos by (simp add: abs_mult)
  qed
  also have "\<dots> \<le> (1 / 2) * s"
    using rne_error [of "x / s"] s_pos by (intro mult_right_mono) simp_all
  finally have err: "\<bar>y - x\<bar> \<le> s / 2" by simp
  have half: "s / 2 = unit_roundoff * 2 powi (e + 52)"
  proof -
    have "(2::real) powi (e + 52) = 2 powi e * 2 powi 52"
      by (simp add: power_int_add)
    then show ?thesis by (simp add: s_def unit_roundoff_def)
  qed
  have "2 powi (e + 52) \<le> \<bar>x\<bar>"
  proof (cases "e = - 1074")
    case True
    then show ?thesis using lo by simp
  next
    case False
    with e_range have "- 1074 < ulp_exp \<bar>x\<bar>" by (simp add: e_def)
    from ulp_exp_lower [OF this] show ?thesis by (simp add: e_def)
  qed
  then have "unit_roundoff * 2 powi (e + 52) \<le> unit_roundoff * \<bar>x\<bar>"
    by (intro mult_left_mono) (simp_all add: unit_roundoff_def)
  with err half have rel: "\<bar>y - x\<bar> \<le> unit_roundoff * \<bar>x\<bar>" by simp
  have "unit_roundoff * \<bar>x\<bar> \<le> \<bar>x\<bar>"
    by (simp add: unit_roundoff_def mult_left_le_one_le)
  with rel have "\<bar>y\<bar> \<le> 2 * \<bar>x\<bar>" by linarith
  with hi have "\<bar>y\<bar> < 2 ^ 1024" by simp
  then have "fl x = Finite y"
    by (simp add: fl_def Let_def e_def [symmetric] s_def [symmetric] y_def [symmetric])
  with rel show ?thesis by blast
qed

lemma rounds_to_error: "rounds_to x y \<Longrightarrow> \<bar>y - x\<bar> \<le> unit_roundoff * \<bar>x\<bar>"
  using fl_ok_error [of x] by (auto simp add: rounds_to_def)

lemma rounds_to_fl: "rounds_to x y \<Longrightarrow> fl x = Finite y"
  by (simp add: rounds_to_def)

lemma unit_roundoff_pos: "0 < unit_roundoff" "unit_roundoff < 1"
  by (simp_all add: unit_roundoff_def)

text \<open>
  One more rounding in a chain of roundings around a target \<open>c\<close> of magnitude at most
  \<open>S\<close>: an error of \<open>((1 + u)\<^sup>j - 1)\<cdot>S\<close> becomes one of \<open>((1 + u)\<^sup>j\<^sup>+\<^sup>1 - 1)\<cdot>S\<close>.
\<close>

lemma rounding_chain:
  assumes x: "\<bar>x - c\<bar> \<le> ((1 + unit_roundoff) ^ j - 1) * S"
    and c: "\<bar>c\<bar> \<le> S"
    and y: "\<bar>y - x\<bar> \<le> unit_roundoff * \<bar>x\<bar>"
  shows "\<bar>y - c\<bar> \<le> ((1 + unit_roundoff) ^ Suc j - 1) * S"
proof -
  define E where "E = (1 + unit_roundoff) ^ j"
  have "\<bar>x\<bar> \<le> \<bar>c\<bar> + \<bar>x - c\<bar>" by linarith
  also have "\<dots> \<le> S + (E - 1) * S" using x c by (simp add: E_def)
  also have "\<dots> = E * S" by (simp add: algebra_simps)
  finally have xb: "\<bar>x\<bar> \<le> E * S" .
  have "\<bar>y - c\<bar> \<le> \<bar>y - x\<bar> + \<bar>x - c\<bar>" by linarith
  also have "\<dots> \<le> unit_roundoff * (E * S) + (E - 1) * S"
    using y x xb unit_roundoff_pos(1)
    by (intro add_mono order_trans [OF y] mult_left_mono) (simp_all add: E_def)
  also have "\<dots> = ((1 + unit_roundoff) * E - 1) * S" by (simp add: algebra_simps)
  finally show ?thesis by (simp add: E_def)
qed

lemma rne_ge: "of_int k \<le> x \<Longrightarrow> k \<le> rne x"
proof -
  assume "of_int k \<le> x"
  then have "k \<le> \<lfloor>x\<rfloor>" by (simp add: le_floor_iff)
  then show ?thesis by (simp add: rne_def Let_def)
qed

lemma rne_le: "x \<le> of_int k \<Longrightarrow> rne x \<le> k"
proof -
  assume le: "x \<le> of_int k"
  then have f: "\<lfloor>x\<rfloor> \<le> k" by (simp add: floor_le_iff)
  show ?thesis
  proof (cases "x = of_int \<lfloor>x\<rfloor>")
    case True
    then have "x - of_int \<lfloor>x\<rfloor> = 0" by simp
    then have "rne x = \<lfloor>x\<rfloor>" by (simp add: rne_def Let_def)
    with f show ?thesis by simp
  next
    case False
    moreover have "of_int \<lfloor>x\<rfloor> \<le> x" by (rule of_int_floor_le)
    ultimately have "of_int \<lfloor>x\<rfloor> < x" by (rule order.not_eq_order_implies_strict [OF not_sym])
    with le have "real_of_int \<lfloor>x\<rfloor> < real_of_int k" by linarith
    then have "\<lfloor>x\<rfloor> < k" by (simp only: of_int_less_iff)
    then show ?thesis by (simp add: rne_def Let_def)
  qed
qed

text \<open>A rounding in the normal range gives a double of normal magnitude.\<close>

lemma rounds_to_normal:
  assumes "rounds_to x y"
  shows "y = 0 \<or> 2 powi (- 1022) \<le> \<bar>y\<bar>"
proof (cases "x = 0")
  case True
  with assms show ?thesis by (simp add: rounds_to_def fl_zero)
next
  case False
  from assms have ok: "fl_ok x" and fy: "fl x = Finite y" by (simp_all add: rounds_to_def)
  from ok False have lo: "2 powi (- 1022) \<le> \<bar>x\<bar>" by (simp add: fl_ok_def)
  define e where "e = ulp_exp \<bar>x\<bar>"
  define s :: real where "s = 2 powi e"
  have s_pos: "0 < s" by (simp add: s_def)
  have e_lo: "- 1074 \<le> e" using ulp_exp_range(1) [of "\<bar>x\<bar>"] by (simp add: e_def)
  have big: "2 powi (e + 52) \<le> \<bar>x\<bar>"
  proof (cases "e = - 1074")
    case True
    then show ?thesis using lo by simp
  next
    case False
    with e_lo have "- 1074 < ulp_exp \<bar>x\<bar>" by (simp add: e_def)
    from ulp_exp_lower [OF this] show ?thesis by (simp add: e_def)
  qed
  have split: "(2::real) powi (e + 52) = 2 ^ 52 * s"
    by (simp add: s_def power_int_add)
  have y: "y = of_int (rne (x / s)) * s"
    using fy by (simp add: fl_def Let_def e_def [symmetric] s_def [symmetric] split: if_splits)
  have "2 ^ 52 * s \<le> \<bar>y\<bar>"
  proof (cases "0 \<le> x")
    case True
    with big split have "of_int (2 ^ 52) \<le> x / s"
      using s_pos by (simp add: le_divide_eq)
    from rne_ge [OF this] have "real_of_int (2 ^ 52) \<le> of_int (rne (x / s))"
      by (simp only: of_int_le_iff)
    then have "(2 ^ 52 :: real) \<le> of_int (rne (x / s))" by simp
    then have "2 ^ 52 * s \<le> of_int (rne (x / s)) * s"
      using s_pos by (intro mult_right_mono) simp_all
    then show ?thesis by (simp add: y)
  next
    case False
    with big split have "x / s \<le> of_int (- (2 ^ 52))"
      using s_pos by (simp add: divide_le_eq)
    from rne_le [OF this] have "of_int (rne (x / s)) \<le> real_of_int (- (2 ^ 52))"
      by (simp only: of_int_le_iff)
    then have "of_int (rne (x / s)) \<le> (- (2 ^ 52) :: real)" by simp
    then have "of_int (rne (x / s)) * s \<le> - (2 ^ 52) * s"
      using s_pos by (intro mult_right_mono) simp_all
    then show ?thesis by (simp add: y)
  qed
  moreover have "(2::real) powi (- 1022) \<le> 2 powi (e + 52)"
    using e_lo by (intro powi_2_mono) simp
  ultimately show ?thesis using split by simp
qed

section \<open>The integrator in double precision\<close>

lemma update_integrator_f_eq:
  assumes "gain_f p = Some k"
  shows "update_integrator_f p u dt =
           Inr (fadd (output_f p) (fmul (fmul k u) dt),
                p\<lparr>output_f := fadd (output_f p) (fmul (fmul k u) dt)\<rparr>)"
  using assms by (simp add: update_integrator_f_def getattr_f_def Let_def)

text \<open>The last of \<open>n + 1\<close> updates is an update of the state after \<open>n\<close>.\<close>

lemma update_integrator_times_Suc:
  "update_integrator_times (Suc n) p u dt =
     (case update_integrator_times n p u dt of
        Inl e \<Rightarrow> Inl e
      | Inr p' \<Rightarrow>
          (case update_integrator_f p' u dt of Inl e \<Rightarrow> Inl e | Inr (y, p'') \<Rightarrow> Inr p''))"
proof (induction n arbitrary: p)
  case 0
  show ?case by (simp split: sum.splits)
next
  case (Suc n)
  show ?case
  proof (cases "update_integrator_f p u dt")
    case (Inl e)
    then show ?thesis by simp
  next
    case (Inr r)
    obtain y p1 where r: "r = (y, p1)" by (cases r)
    have "update_integrator_times (Suc (Suc n)) p u dt = update_integrator_times (Suc n) p1 u dt"
      using Inr r by simp
    also note Suc.IH [of p1]
    finally show ?thesis using Inr r by simp
  qed
qed

text \<open>
  The partial sums: after \<open>n\<close> updates the output is within the relative error
  \<open>(1 + u)\<^sup>n - 1\<close> of \<open>n\<cdot>d\<close> and has the sign of the increment \<open>d\<close>.
\<close>

lemma integrator_partial_sums:
  assumes g: "gain_f p = Some k" and o: "output_f p = Finite 0"
    and d: "fmul (fmul k u) dt = Finite d"
    and dn: "d = 0 \<or> 2 powi (- 1022) \<le> \<bar>d\<bar>"
    and ov: "real n * (1 + unit_roundoff) ^ n * \<bar>d\<bar> < 2 ^ 1023"
  shows "\<exists>y. update_integrator_times n p u dt = Inr (p\<lparr>output_f := Finite y\<rparr>)
           \<and> \<bar>y - real n * d\<bar> \<le> ((1 + unit_roundoff) ^ n - 1) * (real n * \<bar>d\<bar>)
           \<and> 0 \<le> y * d"
  using ov
proof (induction n)
  case 0
  have "p\<lparr>output_f := Finite 0\<rparr> = p" using o by simp
  then show ?case by simp
next
  case (Suc n)
  define E where "E = 1 + unit_roundoff"
  have E1: "1 \<le> E" using unit_roundoff_pos(1) by (simp add: E_def)
  have En: "1 \<le> E ^ n" using E1 by (rule one_le_power)
  have E0: "0 \<le> E ^ n" using En by simp
  have ESuc: "E ^ Suc n = E ^ n + unit_roundoff * E ^ n"
    by (simp add: E_def algebra_simps)
  have grow: "E ^ n \<le> E ^ Suc n"
    using E0 unit_roundoff_pos(1) by (simp only: ESuc) simp
  have top: "real (Suc n) * E ^ n * \<bar>d\<bar> \<le> real (Suc n) * E ^ Suc n * \<bar>d\<bar>"
    using grow by (intro mult_right_mono mult_left_mono) simp_all
  have ov': "real (Suc n) * E ^ Suc n * \<bar>d\<bar> < 2 ^ 1023"
    using Suc.prems unfolding E_def .
  have "real n * E ^ n * \<bar>d\<bar> \<le> real (Suc n) * E ^ n * \<bar>d\<bar>"
    using E0 by (intro mult_right_mono) simp_all
  then have "real n * E ^ n * \<bar>d\<bar> \<le> real (Suc n) * E ^ Suc n * \<bar>d\<bar>"
    using top by (rule order_trans)
  then have "real n * E ^ n * \<bar>d\<bar> < 2 ^ 1023"
    using ov' by (rule order_le_less_trans)
  then have "real n * (1 + unit_roundoff) ^ n * \<bar>d\<bar> < 2 ^ 1023"
    unfolding E_def .
  from Suc.IH [OF this, folded E_def] obtain y
    where run: "update_integrator_times n p u dt = Inr (p\<lparr>output_f := Finite y\<rparr>)"
      and err: "\<bar>y - real n * d\<bar> \<le> (E ^ n - 1) * (real n * \<bar>d\<bar>)"
      and sgn: "0 \<le> y * d"
    by blast
  define x where "x = y + d"
  from sgn have "(0 \<le> y \<and> 0 \<le> d) \<or> (y \<le> 0 \<and> d \<le> 0)"
    by (simp add: zero_le_mult_iff)
  then have xabs: "\<bar>x\<bar> = \<bar>y\<bar> + \<bar>d\<bar>" by (auto simp add: x_def)
  have "\<bar>y\<bar> \<le> \<bar>real n * d\<bar> + \<bar>y - real n * d\<bar>" by linarith
  also have "\<dots> \<le> real n * \<bar>d\<bar> + (E ^ n - 1) * (real n * \<bar>d\<bar>)"
    using err by (simp add: abs_mult)
  also have "\<dots> = real n * E ^ n * \<bar>d\<bar>" by (simp add: algebra_simps)
  finally have yb: "\<bar>y\<bar> \<le> real n * E ^ n * \<bar>d\<bar>" .
  have "\<bar>d\<bar> \<le> E ^ n * \<bar>d\<bar>" using En by (simp add: mult_left_le_one_le mult_le_cancel_right1)
  with yb xabs have xb: "\<bar>x\<bar> \<le> real (Suc n) * E ^ n * \<bar>d\<bar>"
    by (simp add: algebra_simps)
  then have "\<bar>x\<bar> \<le> real (Suc n) * E ^ Suc n * \<bar>d\<bar>"
    using top by (rule order_trans)
  then have x_lt: "\<bar>x\<bar> < 2 ^ 1023"
    using ov' by (rule order_le_less_trans)
  have ok: "fl_ok x"
  proof (cases "d = 0")
    case True
    with err have "y = 0" by simp
    with True show ?thesis by (simp add: fl_ok_def x_def)
  next
    case False
    with dn have "2 powi (- 1022) \<le> \<bar>d\<bar>" by simp
    with xabs have "2 powi (- 1022) \<le> \<bar>x\<bar>" by linarith
    with x_lt show ?thesis by (simp add: fl_ok_def)
  qed
  from fl_ok_error [OF ok] obtain y' where fy: "fl x = Finite y'"
    and ey: "\<bar>y' - x\<bar> \<le> unit_roundoff * \<bar>x\<bar>" by blast
  have step: "update_integrator_times (Suc n) p u dt = Inr (p\<lparr>output_f := Finite y'\<rparr>)"
  proof -
    have "update_integrator_f (p\<lparr>output_f := Finite y\<rparr>) u dt =
            Inr (Finite y', p\<lparr>output_f := Finite y'\<rparr>)"
      using g d fy by (simp add: update_integrator_f_eq x_def)
    then show ?thesis by (subst update_integrator_times_Suc) (simp add: run)
  qed
  have bound: "\<bar>y' - real (Suc n) * d\<bar> \<le> (E ^ Suc n - 1) * (real (Suc n) * \<bar>d\<bar>)"
  proof -
    have "y' - real (Suc n) * d = (y' - x) + (y - real n * d)"
      by (simp add: x_def algebra_simps)
    then have "\<bar>y' - real (Suc n) * d\<bar> \<le> \<bar>y' - x\<bar> + \<bar>y - real n * d\<bar>" by linarith
    also have "\<dots> \<le> unit_roundoff * (real (Suc n) * E ^ n * \<bar>d\<bar>)
                      + (E ^ n - 1) * (real n * \<bar>d\<bar>)"
      using ey xb err unit_roundoff_pos(1)
      by (intro add_mono order_trans [OF ey] mult_left_mono) simp_all
    also have "\<dots> \<le> unit_roundoff * (real (Suc n) * E ^ n * \<bar>d\<bar>)
                      + (E ^ n - 1) * (real n * \<bar>d\<bar>) + (E ^ n - 1) * \<bar>d\<bar>"
      using En by simp
    also have "\<dots> = (E ^ Suc n - 1) * (real (Suc n) * \<bar>d\<bar>)"
      by (simp only: ESuc) (simp add: algebra_simps)
    finally show ?thesis .
  qed
  have sign: "0 \<le> y' * d"
  proof -
    have "x * d = y * d + d * d" by (simp add: x_def algebra_simps)
    with sgn have "0 \<le> x * d" by simp
    then have c: "(0 \<le> x \<and> 0 \<le> d) \<or> (x \<le> 0 \<and> d \<le> 0)"
      by (simp add: zero_le_mult_iff)
    have "unit_roundoff * \<bar>x\<bar> \<le> \<bar>x\<bar>"
      using unit_roundoff_pos by (simp add: mult_left_le_one_le)
    with ey have "\<bar>y' - x\<bar> \<le> \<bar>x\<bar>" by linarith
    with c have "(0 \<le> y' \<and> 0 \<le> d) \<or> (y' \<le> 0 \<and> d \<le> 0)" by auto
    then show ?thesis by (auto simp add: zero_le_mult_iff)
  qed
  from step bound sign show ?case unfolding E_def by blast
qed

text \<open>
  Claim C9, as the code has it. An integrator plant with gain \<open>K\<close> and output \<open>0\<close>
  that is updated \<open>n\<close> times with the same input \<open>u\<close> and the same step \<open>dt\<close> holds
  an output \<open>y\<close> that equals \<open>K\<cdot>u\<cdot>n\<cdot>dt\<close> up to rounding: the relative error is at most
  \<open>(1 + 2\<^sup>-\<^sup>5\<^sup>3)\<^sup>n\<^sup>+\<^sup>2 - 1\<close>, for the two products and the \<open>n\<close> additions of double
  precision, when the two products neither overflow nor underflow and the sum does
  not overflow. The Euler step adds no truncation error to that.
\<close>

theorem integrator_n_steps_rounded:
  assumes g: "gain_f p = Some (Finite k)" and o: "output_f p = Finite 0"
    and r1: "rounds_to (k * u) ku" and r2: "rounds_to (ku * dt) d"
    and ov: "real n * (1 + unit_roundoff) ^ (n + 2) * \<bar>k * u * dt\<bar> < 2 ^ 1023"
  shows "\<exists>y p'. update_integrator_times n p (Finite u) (Finite dt) = Inr p'
           \<and> output_f p' = Finite y
           \<and> \<bar>y - k * u * real n * dt\<bar>
               \<le> ((1 + unit_roundoff) ^ (n + 2) - 1) * \<bar>k * u * real n * dt\<bar>"
proof -
  define c where "c = k * u * dt"
  define E where "E = 1 + unit_roundoff"
  have E1: "1 \<le> E" using unit_roundoff_pos(1) by (simp add: E_def)
  have En: "1 \<le> E ^ n" using E1 by (rule one_le_power)
  have E2: "1 \<le> E ^ 2" using E1 by (rule one_le_power)
  have fd: "fmul (fmul (Finite k) (Finite u)) (Finite dt) = Finite d"
    using r1 r2 by (simp add: rounds_to_fl)
  have dn: "d = 0 \<or> 2 powi (- 1022) \<le> \<bar>d\<bar>" by (rule rounds_to_normal [OF r2])
  have x: "\<bar>ku * dt - c\<bar> \<le> ((1 + unit_roundoff) ^ Suc 0 - 1) * \<bar>c\<bar>"
  proof -
    have "ku * dt - c = (ku - k * u) * dt" by (simp add: c_def algebra_simps)
    then have "\<bar>ku * dt - c\<bar> = \<bar>ku - k * u\<bar> * \<bar>dt\<bar>" by (simp add: abs_mult)
    also have "\<dots> \<le> unit_roundoff * \<bar>k * u\<bar> * \<bar>dt\<bar>"
      using rounds_to_error [OF r1] by (intro mult_right_mono) simp_all
    also have "\<dots> = unit_roundoff * \<bar>c\<bar>" by (simp add: c_def abs_mult)
    finally show ?thesis by simp
  qed
  have "\<bar>d - c\<bar> \<le> ((1 + unit_roundoff) ^ Suc (Suc 0) - 1) * \<bar>c\<bar>"
    by (rule rounding_chain [OF x _ rounds_to_error [OF r2]]) simp
  then have dc: "\<bar>d - c\<bar> \<le> (E ^ 2 - 1) * \<bar>c\<bar>"
    by (simp only: E_def numeral_2_eq_2)
  have "\<bar>d\<bar> \<le> \<bar>c\<bar> + \<bar>d - c\<bar>" by linarith
  also have "\<dots> \<le> \<bar>c\<bar> + (E ^ 2 - 1) * \<bar>c\<bar>" using dc by simp
  also have "\<dots> = E ^ 2 * \<bar>c\<bar>" by (simp add: algebra_simps)
  finally have dabs: "\<bar>d\<bar> \<le> E ^ 2 * \<bar>c\<bar>" .
  have nE: "0 \<le> real n * E ^ n" using En by simp
  have "real n * E ^ n * \<bar>d\<bar> \<le> real n * E ^ n * (E ^ 2 * \<bar>c\<bar>)"
    using dabs nE by (rule mult_left_mono)
  also have "\<dots> = real n * E ^ (n + 2) * \<bar>c\<bar>" by (simp add: power_add power2_eq_square)
  also have "\<dots> < 2 ^ 1023" using ov unfolding E_def c_def .
  finally have "real n * (1 + unit_roundoff) ^ n * \<bar>d\<bar> < 2 ^ 1023" unfolding E_def .
  from integrator_partial_sums [OF g o fd dn this, folded E_def] obtain y
    where run: "update_integrator_times n p (Finite u) (Finite dt) = Inr (p\<lparr>output_f := Finite y\<rparr>)"
      and err: "\<bar>y - real n * d\<bar> \<le> (E ^ n - 1) * (real n * \<bar>d\<bar>)"
    by blast
  have eq: "y - real n * c = (y - real n * d) + real n * (d - c)"
    by (simp add: algebra_simps)
  have "\<bar>y - real n * c\<bar> \<le> \<bar>y - real n * d\<bar> + \<bar>real n * (d - c)\<bar>"
    unfolding eq by (rule abs_triangle_ineq)
  moreover have "\<bar>real n * (d - c)\<bar> = real n * \<bar>d - c\<bar>"
    by (simp add: abs_mult)
  ultimately have "\<bar>y - real n * c\<bar> \<le> \<bar>y - real n * d\<bar> + real n * \<bar>d - c\<bar>"
    by (simp only:)
  also have "\<dots> \<le> (E ^ n - 1) * (real n * (E ^ 2 * \<bar>c\<bar>)) + real n * ((E ^ 2 - 1) * \<bar>c\<bar>)"
  proof (intro add_mono mult_left_mono)
    have "(E ^ n - 1) * (real n * \<bar>d\<bar>) \<le> (E ^ n - 1) * (real n * (E ^ 2 * \<bar>c\<bar>))"
      using dabs En by (intro mult_left_mono) simp_all
    with err show "\<bar>y - real n * d\<bar> \<le> (E ^ n - 1) * (real n * (E ^ 2 * \<bar>c\<bar>))"
      by (rule order_trans)
  qed (use dc in simp_all)
  also have "\<dots> = (E ^ (n + 2) - 1) * (real n * \<bar>c\<bar>)"
    by (simp add: power_add power2_eq_square algebra_simps)
  finally have "\<bar>y - real n * c\<bar> \<le> (E ^ (n + 2) - 1) * (real n * \<bar>c\<bar>)" .
  moreover have "k * u * real n * dt = real n * c" by (simp add: c_def)
  moreover have "\<bar>real n * c\<bar> = real n * \<bar>c\<bar>" by (simp add: abs_mult)
  ultimately have "\<bar>y - k * u * real n * dt\<bar>
      \<le> ((1 + unit_roundoff) ^ (n + 2) - 1) * \<bar>k * u * real n * dt\<bar>"
    by (simp only: E_def)
  with run show ?thesis by simp
qed

section \<open>The controller in double precision\<close>

lemma update_f_via_limits:
  assumes "(if fgt dt (Finite 0) then fdiv (fsub error (previous_error_f s)) dt
            else Inr (Finite 0)) = Inr derivative"
  shows "PIDController_update_f s error dt =
     (case apply_limits_f
             (s\<lparr>proportional_term_f := fmul (Kp_f s) error,
                integral_f := fadd (integral_f s) (fmul error dt),
                integral_term_f := fmul (Ki_f s) (fadd (integral_f s) (fmul error dt)),
                derivative_term_f := fmul (Kd_f s) derivative\<rparr>)
             (fadd (fadd (fmul (Kp_f s) error)
                      (fmul (Ki_f s) (fadd (integral_f s) (fmul error dt))))
                (fmul (Kd_f s) derivative)) of
        Inl e \<Rightarrow> Inl e
      | Inr (out', s5) \<Rightarrow> Inr (out', s5\<lparr>previous_error_f := error\<rparr>))"
proof (cases "fgt dt (Finite 0)")
  case True
  with assms have "fdiv (fsub error (previous_error_f s)) dt = Inr derivative" by simp
  with True show ?thesis by (simp add: PIDController_update_f_def Let_def)
next
  case False
  with assms have "derivative = Finite 0" by simp
  with False show ?thesis by (simp add: PIDController_update_f_def Let_def)
qed

text \<open>The back-solve, when its three operations neither overflow nor underflow.\<close>

lemma anti_windup_f_rounded:
  assumes "Ki_f s = Finite ki" and "ki \<noteq> 0"
    and "proportional_term_f s = Finite P" and "derivative_term_f s = Finite D"
    and "rounds_to (b - P) a1" and "rounds_to (a1 - D) a2" and "rounds_to (a2 / ki) q"
  shows "anti_windup_f s (Finite b) = Inr (s\<lparr>integral_f := Finite q\<rparr>)"
  using assms
  by (simp add: anti_windup_f_def fsub_def rounds_to_fl)

text \<open>
  The recomputation after the back-solve: six roundings lie between the saturated
  output \<open>b\<close> and the recomputed sum \<open>r\<close>.
\<close>

lemma back_solve_error:
  assumes ki: "ki \<noteq> 0"
    and r1: "rounds_to (b - P) a1" and r2: "rounds_to (a1 - D) a2"
    and r3: "rounds_to (a2 / ki) q" and r4: "rounds_to (ki * q) m"
    and r5: "rounds_to (P + m) t" and r6: "rounds_to (t + D) r"
  shows "\<bar>r - b\<bar> \<le> ((1 + unit_roundoff) ^ 6 - 1) * (\<bar>b\<bar> + \<bar>P\<bar> + \<bar>D\<bar>)"
proof -
  define S where "S = \<bar>b\<bar> + \<bar>P\<bar> + \<bar>D\<bar>"
  have c1: "\<bar>b - P\<bar> \<le> S" and c2: "\<bar>b - P - D\<bar> \<le> S" and c3: "\<bar>b - D\<bar> \<le> S"
    and c4: "\<bar>b\<bar> \<le> S"
    by (simp_all add: S_def)
  have e1: "\<bar>a1 - (b - P)\<bar> \<le> ((1 + unit_roundoff) ^ Suc 0 - 1) * S"
    by (rule rounding_chain [where x = "b - P"]) (use c1 rounds_to_error [OF r1] in simp_all)
  have e2: "\<bar>a2 - (b - P - D)\<bar> \<le> ((1 + unit_roundoff) ^ Suc (Suc 0) - 1) * S"
  proof (rule rounding_chain [where x = "a1 - D"])
    have "a1 - D - (b - P - D) = a1 - (b - P)" by simp
    with e1 show "\<bar>a1 - D - (b - P - D)\<bar> \<le> ((1 + unit_roundoff) ^ Suc 0 - 1) * S"
      by (simp only:)
  qed (use c2 rounds_to_error [OF r2] in simp_all)
  have q: "\<bar>ki * q - a2\<bar> \<le> unit_roundoff * \<bar>a2\<bar>"
  proof -
    have "ki * q - a2 = ki * (q - a2 / ki)" using ki by (simp add: algebra_simps)
    then have "\<bar>ki * q - a2\<bar> = \<bar>ki\<bar> * \<bar>q - a2 / ki\<bar>" by (simp add: abs_mult)
    also have "\<dots> \<le> \<bar>ki\<bar> * (unit_roundoff * \<bar>a2 / ki\<bar>)"
      using rounds_to_error [OF r3] by (intro mult_left_mono) simp_all
    also have "\<dots> = unit_roundoff * \<bar>a2\<bar>" using ki by (simp add: abs_divide)
    finally show ?thesis .
  qed
  have e3: "\<bar>ki * q - (b - P - D)\<bar> \<le> ((1 + unit_roundoff) ^ Suc (Suc (Suc 0)) - 1) * S"
    by (rule rounding_chain [where x = a2]) (use e2 c2 q in simp_all)
  have e4: "\<bar>m - (b - P - D)\<bar> \<le> ((1 + unit_roundoff) ^ Suc (Suc (Suc (Suc 0))) - 1) * S"
    by (rule rounding_chain [where x = "ki * q"]) (use e3 c2 rounds_to_error [OF r4] in simp_all)
  have e5: "\<bar>t - (b - D)\<bar> \<le> ((1 + unit_roundoff) ^ Suc (Suc (Suc (Suc (Suc 0)))) - 1) * S"
  proof (rule rounding_chain [where x = "P + m"])
    have "P + m - (b - D) = m - (b - P - D)" by simp
    with e4 show "\<bar>P + m - (b - D)\<bar>
        \<le> ((1 + unit_roundoff) ^ Suc (Suc (Suc (Suc 0))) - 1) * S"
      by (simp only:)
  qed (use c3 rounds_to_error [OF r5] in simp_all)
  have e6: "\<bar>r - b\<bar> \<le> ((1 + unit_roundoff) ^ Suc (Suc (Suc (Suc (Suc (Suc 0))))) - 1) * S"
  proof (rule rounding_chain [where x = "t + D"])
    have "t + D - b = t - (b - D)" by simp
    with e5 show "\<bar>t + D - b\<bar>
        \<le> ((1 + unit_roundoff) ^ Suc (Suc (Suc (Suc (Suc 0)))) - 1) * S"
      by (simp only:)
  qed (use c4 rounds_to_error [OF r6] in simp_all)
  have "Suc (Suc (Suc (Suc (Suc (Suc 0))))) = 6" by simp
  with e6 show ?thesis by (simp only: S_def)
qed

text \<open>
  Claim C1, as the code has it. Let finite limits \<open>lo \<le> hi\<close> be set and \<open>Ki \<noteq> 0\<close>, let
  \<open>P\<close> and \<open>D\<close> be the proportional and derivative terms of this step, and let the
  unsaturated sum exceed \<open>hi\<close> (or fall below \<open>lo\<close>); write \<open>b\<close> for that bound. Then
  \<^verbatim>\<open>update\<close> returns \<open>b\<close> and stores the integral \<open>q\<close>, the quotient \<open>(b - P - D) / Ki\<close> as
  double precision computes it. Recomputing \<open>P + Ki\<cdot>integral + D\<close> from the stored
  integral gives a double \<open>r\<close> that equals \<open>b\<close> up to rounding,
  \<open>|r - b| \<le> ((1 + 2\<^sup>-\<^sup>5\<^sup>3)\<^sup>6 - 1)\<cdot>(|b| + |P| + |D|)\<close>, when none of the three operations of
  the back-solve and of the three of the recomputation overflows or underflows.
\<close>

theorem update_saturated_rounded:
  assumes lim: "output_limits_f s = Some (Finite lo, Finite hi)" and ord: "lo \<le> hi"
    and ki: "Ki_f s = Finite ki" "ki \<noteq> 0"
    and der: "(if fgt dt (Finite 0) then fdiv (fsub error (previous_error_f s)) dt
               else Inr (Finite 0)) = Inr derivative"
    and P: "fmul (Kp_f s) error = Finite P"
    and D: "fmul (Kd_f s) derivative = Finite D"
    and out: "out = fadd (fadd (Finite P)
                            (fmul (Finite ki) (fadd (integral_f s) (fmul error dt))))
                      (Finite D)"
    and sat: "fgt out (Finite hi) \<and> b = hi \<or> flt out (Finite lo) \<and> b = lo"
    and bs: "rounds_to (b - P) a1" "rounds_to (a1 - D) a2" "rounds_to (a2 / ki) q"
    and rc: "rounds_to (ki * q) m" "rounds_to (P + m) t" "rounds_to (t + D) r"
  shows "\<exists>s'. PIDController_update_f s error dt = Inr (Finite b, s')
           \<and> integral_f s' = Finite q
           \<and> proportional_term_f s' = Finite P \<and> derivative_term_f s' = Finite D
           \<and> recomputed_output s' = Finite r
           \<and> \<bar>r - b\<bar> \<le> ((1 + unit_roundoff) ^ 6 - 1) * (\<bar>b\<bar> + \<bar>P\<bar> + \<bar>D\<bar>)"
proof -
  let ?s4 = "s\<lparr>proportional_term_f := fmul (Kp_f s) error,
                integral_f := fadd (integral_f s) (fmul error dt),
                integral_term_f := fmul (Ki_f s) (fadd (integral_f s) (fmul error dt)),
                derivative_term_f := fmul (Kd_f s) derivative\<rparr>"
  have aw: "anti_windup_f ?s4 (Finite b) = Inr (?s4\<lparr>integral_f := Finite q\<rparr>)"
    by (rule anti_windup_f_rounded [OF _ ki(2) _ _ bs]) (simp_all add: ki(1) P D)
  have low: "flt out (Finite lo) \<Longrightarrow> \<not> fgt out (Finite hi)"
    using ord by (cases out) (simp_all add: fgt_def)
  have lims: "apply_limits_f ?s4 out = Inr (Finite b, ?s4\<lparr>integral_f := Finite q\<rparr>)"
    using sat
  proof
    assume "fgt out (Finite hi) \<and> b = hi"
    then show ?thesis using aw by (simp add: apply_limits_f_def lim)
  next
    assume "flt out (Finite lo) \<and> b = lo"
    then show ?thesis using aw low by (simp add: apply_limits_f_def lim)
  qed
  have upd: "PIDController_update_f s error dt =
               Inr (Finite b, ?s4\<lparr>integral_f := Finite q, previous_error_f := error\<rparr>)"
    using lims by (simp add: update_f_via_limits [OF der] P D ki(1) out)
  have rec: "recomputed_output (?s4\<lparr>integral_f := Finite q, previous_error_f := error\<rparr>)
               = Finite r"
    using rc by (simp add: recomputed_output_def P D ki(1) rounds_to_fl)
  have "\<bar>r - b\<bar> \<le> ((1 + unit_roundoff) ^ 6 - 1) * (\<bar>b\<bar> + \<bar>P\<bar> + \<bar>D\<bar>)"
    by (rule back_solve_error [OF ki(2) bs rc])
  with upd rec show ?thesis by (simp add: P D)
qed

section \<open>Two runs in double precision\<close>

text \<open>
  The roundings that occur when an integrator with gain \<open>1.0\<close> is updated ten times
  with input \<open>1.0\<close> and step \<open>0.1\<close>, and when a fresh controller with gains
  \<open>(1.0, 0.1, 0.2)\<close> and limits \<open>(-1.0, 1.0)\<close> is updated with error \<open>0.7\<close> or \<open>-0.7\<close>
  and step \<open>0.01\<close>. A decimal literal stands for the double nearest to it, written
  here as a fraction.
\<close>

lemma rounding_1:
  "fl 1 = Finite 1"
proof -
  have "fl 1 = Finite (of_int 4503599627370496 * 2 powi (-52))"
    by (rule fl_eval) (simp_all add: rne_def)
  then show ?thesis by simp
qed

lemma rounding_2:
  "fl (3602879701896397 / 36028797018963968) = Finite (3602879701896397 / 36028797018963968)"
proof -
  have "fl (3602879701896397 / 36028797018963968) = Finite (of_int 7205759403792794 * 2 powi (-56))"
    by (rule fl_eval) (simp_all add: rne_def)
  then show ?thesis by simp
qed

lemma rounding_3:
  "fl (3602879701896397 / 18014398509481984) = Finite (3602879701896397 / 18014398509481984)"
proof -
  have "fl (3602879701896397 / 18014398509481984) = Finite (of_int 7205759403792794 * 2 powi (-55))"
    by (rule fl_eval) (simp_all add: rne_def)
  then show ?thesis by simp
qed

lemma rounding_4:
  "fl (10808639105689191 / 36028797018963968) = Finite (1351079888211149 / 4503599627370496)"
proof -
  have "fl (10808639105689191 / 36028797018963968) = Finite (of_int 5404319552844596 * 2 powi (-54))"
    by (rule fl_eval) (simp_all add: rne_def)
  then show ?thesis by simp
qed

lemma rounding_5:
  "fl (14411518807585589 / 36028797018963968) = Finite (3602879701896397 / 9007199254740992)"
proof -
  have "fl (14411518807585589 / 36028797018963968) = Finite (of_int 7205759403792794 * 2 powi (-54))"
    by (rule fl_eval) (simp_all add: rne_def)
  then show ?thesis by simp
qed

lemma rounding_6:
  "fl (18014398509481985 / 36028797018963968) = Finite (1 / 2)"
proof -
  have "fl (18014398509481985 / 36028797018963968) = Finite (of_int 4503599627370496 * 2 powi (-53))"
    by (rule fl_eval) (simp_all add: rne_def)
  then show ?thesis by simp
qed

lemma rounding_7:
  "fl (21617278211378381 / 36028797018963968) = Finite (5404319552844595 / 9007199254740992)"
proof -
  have "fl (21617278211378381 / 36028797018963968) = Finite (of_int 5404319552844595 * 2 powi (-53))"
    by (rule fl_eval) (simp_all add: rne_def)
  then show ?thesis by simp
qed

lemma rounding_8:
  "fl (25220157913274777 / 36028797018963968) = Finite (3152519739159347 / 4503599627370496)"
proof -
  have "fl (25220157913274777 / 36028797018963968) = Finite (of_int 6305039478318694 * 2 powi (-53))"
    by (rule fl_eval) (simp_all add: rne_def)
  then show ?thesis by simp
qed

lemma rounding_9:
  "fl (28823037615171173 / 36028797018963968) = Finite (7205759403792793 / 9007199254740992)"
proof -
  have "fl (28823037615171173 / 36028797018963968) = Finite (of_int 7205759403792793 * 2 powi (-53))"
    by (rule fl_eval) (simp_all add: rne_def)
  then show ?thesis by simp
qed

lemma rounding_10:
  "fl (32425917317067569 / 36028797018963968) = Finite (2026619832316723 / 2251799813685248)"
proof -
  have "fl (32425917317067569 / 36028797018963968) = Finite (of_int 8106479329266892 * 2 powi (-53))"
    by (rule fl_eval) (simp_all add: rne_def)
  then show ?thesis by simp
qed

lemma rounding_11:
  "fl (36028797018963965 / 36028797018963968) = Finite (9007199254740991 / 9007199254740992)"
proof -
  have "fl (36028797018963965 / 36028797018963968) = Finite (of_int 9007199254740991 * 2 powi (-53))"
    by (rule fl_eval) (simp_all add: rne_def)
  then show ?thesis by simp
qed

lemma rounding_12:
  "fl 10 = Finite 10"
proof -
  have "fl 10 = Finite (of_int 5629499534213120 * 2 powi (-49))"
    by (rule fl_eval) (simp_all add: rne_def)
  then show ?thesis by simp
qed

lemma rounding_13:
  "fl (18014398509481985 / 18014398509481984) = Finite 1"
proof -
  have "fl (18014398509481985 / 18014398509481984) = Finite (of_int 4503599627370496 * 2 powi (-52))"
    by (rule fl_eval) (simp_all add: rne_def)
  then show ?thesis by simp
qed

lemma rounding_14:
  "fl (3152519739159347 / 4503599627370496) = Finite (3152519739159347 / 4503599627370496)"
proof -
  have "fl (3152519739159347 / 4503599627370496) = Finite (of_int 6305039478318694 * 2 powi (-53))"
    by (rule fl_eval) (simp_all add: rne_def)
  then show ?thesis by simp
qed

lemma rounding_15:
  "fl (18173039004871895925237601244545 / 2596148429267413814265248164610048) = Finite (1008806316530991 / 144115188075855872)"
proof -
  have "fl (18173039004871895925237601244545 / 2596148429267413814265248164610048) = Finite (of_int 8070450532247928 * 2 powi (-60))"
    by (rule fl_eval) (simp_all add: rne_def)
  then show ?thesis by simp
qed

lemma rounding_16:
  "fl (1008806316530991 / 144115188075855872) = Finite (1008806316530991 / 144115188075855872)"
proof -
  have "fl (1008806316530991 / 144115188075855872) = Finite (of_int 8070450532247928 * 2 powi (-60))"
    by (rule fl_eval) (simp_all add: rne_def)
  then show ?thesis by simp
qed

lemma rounding_17:
  "fl (3634607800974379167033121739427 / 5192296858534827628530496329220096) = Finite (6456360425798343 / 9223372036854775808)"
proof -
  have "fl (3634607800974379167033121739427 / 5192296858534827628530496329220096) = Finite (of_int 6456360425798343 * 2 powi (-63))"
    by (rule fl_eval) (simp_all add: rne_def)
  then show ?thesis by simp
qed

lemma rounding_18:
  "fl (403522526612396416 / 5764607523034235) = Finite 70"
proof -
  have "fl (403522526612396416 / 5764607523034235) = Finite (of_int 4925812092436480 * 2 powi (-46))"
    by (rule fl_eval) (simp_all add: rne_def)
  then show ?thesis by simp
qed

lemma rounding_19:
  "fl (126100789566373895 / 9007199254740992) = Finite 14"
proof -
  have "fl (126100789566373895 / 9007199254740992) = Finite (of_int 7881299347898368 * 2 powi (-49))"
    by (rule fl_eval) (simp_all add: rne_def)
  then show ?thesis by simp
qed

lemma rounding_20:
  "fl (6462816786224140999 / 9223372036854775808) = Finite (6311344517797013 / 9007199254740992)"
proof -
  have "fl (6462816786224140999 / 9223372036854775808) = Finite (of_int 6311344517797013 * 2 powi (-53))"
    by (rule fl_eval) (simp_all add: rne_def)
  then show ?thesis by simp
qed

lemma rounding_21:
  "fl (132412134084170901 / 9007199254740992) = Finite (8275758380260681 / 562949953421312)"
proof -
  have "fl (132412134084170901 / 9007199254740992) = Finite (of_int 8275758380260681 * 2 powi (-49))"
    by (rule fl_eval) (simp_all add: rne_def)
  then show ?thesis by simp
qed

lemma rounding_22:
  "fl (1351079888211149 / 4503599627370496) = Finite (1351079888211149 / 4503599627370496)"
proof -
  have "fl (1351079888211149 / 4503599627370496) = Finite (of_int 5404319552844596 * 2 powi (-54))"
    by (rule fl_eval) (simp_all add: rne_def)
  then show ?thesis by simp
qed

lemma rounding_23:
  "fl (- (61699314894975795 / 4503599627370496)) = Finite (- (3856207180935987 / 281474976710656))"
proof -
  have "fl (- (61699314894975795 / 4503599627370496)) = Finite (of_int (- 7712414361871974) * 2 powi (-49))"
    by (rule fl_eval) (simp_all add: rne_def)
  then show ?thesis by simp
qed

lemma rounding_24:
  "fl (- (493594519159806336 / 3602879701896397)) = Finite (- (4820258976169983 / 35184372088832))"
proof -
  have "fl (- (493594519159806336 / 3602879701896397)) = Finite (of_int (- 4820258976169983) * 2 powi (-45))"
    by (rule fl_eval) (simp_all add: rne_def)
  then show ?thesis by simp
qed

lemma rounding_25:
  "fl (- (17366813223126740161676927251251 / 1267650600228229401496703205376)) = Finite (- (7712414361871973 / 562949953421312))"
proof -
  have "fl (- (17366813223126740161676927251251 / 1267650600228229401496703205376)) = Finite (of_int (- 7712414361871973) * 2 powi (-49))"
    by (rule fl_eval) (simp_all add: rne_def)
  then show ?thesis by simp
qed

lemma rounding_26:
  "fl (- (58546795155816437 / 4503599627370496)) = Finite (- (7318349394477055 / 562949953421312))"
proof -
  have "fl (- (58546795155816437 / 4503599627370496)) = Finite (of_int (- 7318349394477055) * 2 powi (-49))"
    by (rule fl_eval) (simp_all add: rne_def)
  then show ?thesis by simp
qed

lemma rounding_27:
  "fl (562949953421313 / 562949953421312) = Finite (562949953421313 / 562949953421312)"
proof -
  have "fl (562949953421313 / 562949953421312) = Finite (of_int 4503599627370504 * 2 powi (-52))"
    by (rule fl_eval) (simp_all add: rne_def)
  then show ?thesis by simp
qed

lemma rounding_28:
  "fl (- (3152519739159347 / 4503599627370496)) = Finite (- (3152519739159347 / 4503599627370496))"
proof -
  have "fl (- (3152519739159347 / 4503599627370496)) = Finite (of_int (- 6305039478318694) * 2 powi (-53))"
    by (rule fl_eval) (simp_all add: rne_def)
  then show ?thesis by simp
qed

lemma rounding_29:
  "fl (- (18173039004871895925237601244545 / 2596148429267413814265248164610048)) = Finite (- (1008806316530991 / 144115188075855872))"
proof -
  have "fl (- (18173039004871895925237601244545 / 2596148429267413814265248164610048)) = Finite (of_int (- 8070450532247928) * 2 powi (-60))"
    by (rule fl_eval) (simp_all add: rne_def)
  then show ?thesis by simp
qed

lemma rounding_30:
  "fl (- (1008806316530991 / 144115188075855872)) = Finite (- (1008806316530991 / 144115188075855872))"
proof -
  have "fl (- (1008806316530991 / 144115188075855872)) = Finite (of_int (- 8070450532247928) * 2 powi (-60))"
    by (rule fl_eval) (simp_all add: rne_def)
  then show ?thesis by simp
qed

lemma rounding_31:
  "fl (- (3634607800974379167033121739427 / 5192296858534827628530496329220096)) = Finite (- (6456360425798343 / 9223372036854775808))"
proof -
  have "fl (- (3634607800974379167033121739427 / 5192296858534827628530496329220096)) = Finite (of_int (- 6456360425798343) * 2 powi (-63))"
    by (rule fl_eval) (simp_all add: rne_def)
  then show ?thesis by simp
qed

lemma rounding_32:
  "fl (- (403522526612396416 / 5764607523034235)) = Finite (- 70)"
proof -
  have "fl (- (403522526612396416 / 5764607523034235)) = Finite (of_int (- 4925812092436480) * 2 powi (-46))"
    by (rule fl_eval) (simp_all add: rne_def)
  then show ?thesis by simp
qed

lemma rounding_33:
  "fl (- (126100789566373895 / 9007199254740992)) = Finite (- 14)"
proof -
  have "fl (- (126100789566373895 / 9007199254740992)) = Finite (of_int (- 7881299347898368) * 2 powi (-49))"
    by (rule fl_eval) (simp_all add: rne_def)
  then show ?thesis by simp
qed

lemma rounding_34:
  "fl (- (6462816786224140999 / 9223372036854775808)) = Finite (- (6311344517797013 / 9007199254740992))"
proof -
  have "fl (- (6462816786224140999 / 9223372036854775808)) = Finite (of_int (- 6311344517797013) * 2 powi (-53))"
    by (rule fl_eval) (simp_all add: rne_def)
  then show ?thesis by simp
qed

lemma rounding_35:
  "fl (- (132412134084170901 / 9007199254740992)) = Finite (- (8275758380260681 / 562949953421312))"
proof -
  have "fl (- (132412134084170901 / 9007199254740992)) = Finite (of_int (- 8275758380260681) * 2 powi (-49))"
    by (rule fl_eval) (simp_all add: rne_def)
  then show ?thesis by simp
qed

lemma rounding_36:
  "fl (- (1351079888211149 / 4503599627370496)) = Finite (- (1351079888211149 / 4503599627370496))"
proof -
  have "fl (- (1351079888211149 / 4503599627370496)) = Finite (of_int (- 5404319552844596) * 2 powi (-54))"
    by (rule fl_eval) (simp_all add: rne_def)
  then show ?thesis by simp
qed

lemma rounding_37:
  "fl (61699314894975795 / 4503599627370496) = Finite (3856207180935987 / 281474976710656)"
proof -
  have "fl (61699314894975795 / 4503599627370496) = Finite (of_int 7712414361871974 * 2 powi (-49))"
    by (rule fl_eval) (simp_all add: rne_def)
  then show ?thesis by simp
qed

lemma rounding_38:
  "fl (493594519159806336 / 3602879701896397) = Finite (4820258976169983 / 35184372088832)"
proof -
  have "fl (493594519159806336 / 3602879701896397) = Finite (of_int 4820258976169983 * 2 powi (-45))"
    by (rule fl_eval) (simp_all add: rne_def)
  then show ?thesis by simp
qed

lemma rounding_39:
  "fl (17366813223126740161676927251251 / 1267650600228229401496703205376) = Finite (7712414361871973 / 562949953421312)"
proof -
  have "fl (17366813223126740161676927251251 / 1267650600228229401496703205376) = Finite (of_int 7712414361871973 * 2 powi (-49))"
    by (rule fl_eval) (simp_all add: rne_def)
  then show ?thesis by simp
qed

lemma rounding_40:
  "fl (58546795155816437 / 4503599627370496) = Finite (7318349394477055 / 562949953421312)"
proof -
  have "fl (58546795155816437 / 4503599627370496) = Finite (of_int 7318349394477055 * 2 powi (-49))"
    by (rule fl_eval) (simp_all add: rne_def)
  then show ?thesis by simp
qed

lemma rounding_41:
  "fl (- (562949953421313 / 562949953421312)) = Finite (- (562949953421313 / 562949953421312))"
proof -
  have "fl (- (562949953421313 / 562949953421312)) = Finite (of_int (- 4503599627370504) * 2 powi (-52))"
    by (rule fl_eval) (simp_all add: rne_def)
  then show ?thesis by simp
qed

lemmas example_roundings =
    rounding_1 rounding_2 rounding_3 rounding_4 rounding_5 rounding_6 rounding_7
    rounding_8 rounding_9 rounding_10 rounding_11 rounding_12 rounding_13
    rounding_14 rounding_15 rounding_16 rounding_17 rounding_18 rounding_19
    rounding_20 rounding_21 rounding_22 rounding_23 rounding_24 rounding_25
    rounding_26 rounding_27 rounding_28 rounding_29 rounding_30 rounding_31
    rounding_32 rounding_33 rounding_34 rounding_35 rounding_36 rounding_37
    rounding_38 rounding_39 rounding_40 rounding_41


text \<open>
  Claim C9 as stated fails. An integrator with gain \<open>1.0\<close> and output \<open>0\<close>, updated
  ten times with input \<open>1.0\<close> and step \<open>0.1\<close>, holds \<open>1 - 2\<^sup>-\<^sup>5\<^sup>3\<close>
  (\<^verbatim>\<open>0.9999999999999999\<close>), whereas \<^verbatim>\<open>K * u * n * dt\<close> is \<open>1.0\<close> in double precision and
  slightly more than \<open>1\<close> in exact arithmetic.
\<close>

theorem integrator_ten_steps_counterexample:
  "update_integrator_times 10
     \<lparr>system_type_f = ''Integrator'', params_f = [''gain'' \<mapsto> Finite 1],
      output_f = Finite 0,
      output_dot_f = Finite 0, previous_input_f = Finite 0, time_constant_f = None,
      gain_f = Some (Finite 1), damping_f = None, natural_freq_f = None\<rparr>
     (Finite 1) (Finite (3602879701896397 / 36028797018963968))
   = Inr \<lparr>system_type_f = ''Integrator'', params_f = [''gain'' \<mapsto> Finite 1],
      output_f = Finite (9007199254740991 / 9007199254740992),
      output_dot_f = Finite 0, previous_input_f = Finite 0, time_constant_f = None,
      gain_f = Some (Finite 1), damping_f = None, natural_freq_f = None\<rparr>
   \<and> fmul (fmul (fmul (Finite 1) (Finite 1)) (Finite 10))
       (Finite (3602879701896397 / 36028797018963968)) = Finite 1
   \<and> (9007199254740991 / 9007199254740992 :: real) \<noteq> 1
   \<and> (9007199254740991 / 9007199254740992 :: real)
       \<noteq> 1 * 1 * 10 * (3602879701896397 / 36028797018963968)"
  by (simp add: eval_nat_numeral update_integrator_f_def getattr_f_def Let_def
      example_roundings)


text \<open>The bound of claim C9 at this run of ten updates.\<close>

theorem integrator_n_steps_rounded_witness:
  "\<exists>y p'. update_integrator_times 10
       \<lparr>system_type_f = ''Integrator'', params_f = [''gain'' \<mapsto> Finite 1],
      output_f = Finite 0,
      output_dot_f = Finite 0, previous_input_f = Finite 0, time_constant_f = None,
      gain_f = Some (Finite 1), damping_f = None, natural_freq_f = None\<rparr>
       (Finite 1) (Finite (3602879701896397 / 36028797018963968)) = Inr p'
     \<and> output_f p' = Finite y
     \<and> \<bar>y - 1 * 1 * real 10 * (3602879701896397 / 36028797018963968)\<bar>
         \<le> ((1 + unit_roundoff) ^ (10 + 2) - 1)
            * \<bar>1 * 1 * real 10 * (3602879701896397 / 36028797018963968)\<bar>"
proof -
  let ?p = "\<lparr>system_type_f = ''Integrator'', params_f = [''gain'' \<mapsto> Finite 1],
    output_f = Finite 0,
    output_dot_f = Finite 0, previous_input_f = Finite 0, time_constant_f = None,
    gain_f = Some (Finite 1), damping_f = None, natural_freq_f = None\<rparr>"
  let ?dt = "3602879701896397 / 36028797018963968 :: real"
  have g: "gain_f ?p = Some (Finite 1)" by simp
  have o: "output_f ?p = Finite 0" by simp
  have r1: "rounds_to (1 * 1) 1"
    by (simp add: rounds_to_def fl_ok_def example_roundings)
  have r2: "rounds_to (1 * ?dt) ?dt"
    by (simp add: rounds_to_def fl_ok_def example_roundings)
  have ov: "real 10 * (1 + unit_roundoff) ^ (10 + 2) * \<bar>1 * 1 * ?dt\<bar> < 2 ^ 1023"
  proof -
    have "(1 + unit_roundoff) ^ (10 + 2) \<le> 2 ^ (10 + 2)"
      using unit_roundoff_pos by (intro power_mono) simp_all
    then have "real 10 * (1 + unit_roundoff) ^ (10 + 2) * \<bar>1 * 1 * ?dt\<bar>
        \<le> real 10 * 2 ^ (10 + 2) * \<bar>1 * 1 * ?dt\<bar>"
      by (intro mult_right_mono mult_left_mono) simp_all
    also have "\<dots> < 2 ^ 1023" by simp
    finally show ?thesis .
  qed
  show ?thesis by (rule integrator_n_steps_rounded [OF g o r1 r2 ov])
qed

text \<open>
  The statement of claim C1 at the two controller runs: the error \<open>0.7\<close> saturates at
  the upper limit and the error \<open>-0.7\<close> at the lower one.
\<close>

theorem update_saturated_rounded_witness:
  "(\<exists>s'. PIDController_update_f
            (PIDController_init_f (Finite 1) (Finite (3602879701896397 / 36028797018963968))
            (Finite (3602879701896397 / 18014398509481984))
            (Some (Finite (- 1), Finite 1)))
            (Finite (3152519739159347 / 4503599627370496)) (Finite (5764607523034235 / 576460752303423488))
          = Inr (Finite 1, s')
        \<and> integral_f s' = Finite (- (4820258976169983 / 35184372088832))
        \<and> proportional_term_f s' = Finite (3152519739159347 / 4503599627370496)
        \<and> derivative_term_f s' = Finite 14
        \<and> recomputed_output s' = Finite (562949953421313 / 562949953421312)
        \<and> \<bar>(562949953421313 / 562949953421312) - 1\<bar>
            \<le> ((1 + unit_roundoff) ^ 6 - 1)
               * (\<bar>1\<bar> + \<bar>(3152519739159347 / 4503599627370496)\<bar> + \<bar>14\<bar>))
   \<and> (\<exists>s'. PIDController_update_f
            (PIDController_init_f (Finite 1) (Finite (3602879701896397 / 36028797018963968))
            (Finite (3602879701896397 / 18014398509481984))
            (Some (Finite (- 1), Finite 1)))
            (Finite (- (3152519739159347 / 4503599627370496))) (Finite (5764607523034235 / 576460752303423488))
          = Inr (Finite (- 1), s')
        \<and> integral_f s' = Finite (4820258976169983 / 35184372088832)
        \<and> proportional_term_f s' = Finite (- (3152519739159347 / 4503599627370496))
        \<and> derivative_term_f s' = Finite (- 14)
        \<and> recomputed_output s' = Finite (- (562949953421313 / 562949953421312))
        \<and> \<bar>(- (562949953421313 / 562949953421312)) - - 1\<bar>
            \<le> ((1 + unit_roundoff) ^ 6 - 1)
               * (\<bar>- 1\<bar> + \<bar>(- (3152519739159347 / 4503599627370496))\<bar> + \<bar>(- 14)\<bar>))"
proof -
  let ?s0 = "PIDController_init_f (Finite 1) (Finite (3602879701896397 / 36028797018963968))
      (Finite (3602879701896397 / 18014398509481984))
      (Some (Finite (- 1), Finite 1))"
  have lim: "output_limits_f ?s0 = Some (Finite (- 1), Finite 1)"
    by (simp add: PIDController_init_f_def)
  have ord: "(- 1 :: real) \<le> 1" by simp
  have ki: "Ki_f ?s0 = Finite (3602879701896397 / 36028797018963968)"
    by (simp add: PIDController_init_f_def)
  have kn: "(3602879701896397 / 36028797018963968 :: real) \<noteq> 0" by simp

  have high: "\<exists>s'. PIDController_update_f ?s0 (Finite (3152519739159347 / 4503599627370496)) (Finite (5764607523034235 / 576460752303423488))
             = Inr (Finite 1, s')
           \<and> integral_f s' = Finite (- (4820258976169983 / 35184372088832))
           \<and> proportional_term_f s' = Finite (3152519739159347 / 4503599627370496)
           \<and> derivative_term_f s' = Finite 14
           \<and> recomputed_output s' = Finite (562949953421313 / 562949953421312)
           \<and> \<bar>(562949953421313 / 562949953421312) - 1\<bar>
               \<le> ((1 + unit_roundoff) ^ 6 - 1)
                  * (\<bar>1\<bar> + \<bar>(3152519739159347 / 4503599627370496)\<bar> + \<bar>14\<bar>)"
  proof -
    have der: "(if fgt (Finite (5764607523034235 / 576460752303423488)) (Finite 0)
                then fdiv (fsub (Finite (3152519739159347 / 4503599627370496)) (previous_error_f ?s0))
                       (Finite (5764607523034235 / 576460752303423488))
                else Inr (Finite 0)) = Inr (Finite 70)"
      by (simp add: PIDController_init_f_def fgt_def fsub_def example_roundings)
    have P: "fmul (Kp_f ?s0) (Finite (3152519739159347 / 4503599627370496)) = Finite (3152519739159347 / 4503599627370496)"
      by (simp add: PIDController_init_f_def example_roundings)
    have D: "fmul (Kd_f ?s0) (Finite 70) = Finite 14"
      by (simp add: PIDController_init_f_def example_roundings)
    have out: "Finite (8275758380260681 / 562949953421312) =
        fadd (fadd (Finite (3152519739159347 / 4503599627370496))
                (fmul (Finite (3602879701896397 / 36028797018963968))
                   (fadd (integral_f ?s0)
                      (fmul (Finite (3152519739159347 / 4503599627370496)) (Finite (5764607523034235 / 576460752303423488))))))
          (Finite 14)"
      by (simp add: PIDController_init_f_def example_roundings)
    have sat: "fgt (Finite (8275758380260681 / 562949953421312)) (Finite 1) \<and> (1 :: real) = 1
        \<or> flt (Finite (8275758380260681 / 562949953421312)) (Finite (- 1)) \<and> (1 :: real) = - 1"
      by (simp add: fgt_def)
    have r1: "rounds_to (1 - (3152519739159347 / 4503599627370496)) (1351079888211149 / 4503599627370496)"
      and r2: "rounds_to ((1351079888211149 / 4503599627370496) - 14) (- (3856207180935987 / 281474976710656))"
      and r3: "rounds_to ((- (3856207180935987 / 281474976710656)) / (3602879701896397 / 36028797018963968))
                 (- (4820258976169983 / 35184372088832))"
      and r4: "rounds_to ((3602879701896397 / 36028797018963968) * (- (4820258976169983 / 35184372088832)))
                 (- (7712414361871973 / 562949953421312))"
      and r5: "rounds_to ((3152519739159347 / 4503599627370496) + (- (7712414361871973 / 562949953421312)))
                 (- (7318349394477055 / 562949953421312))"
      and r6: "rounds_to ((- (7318349394477055 / 562949953421312)) + 14) (562949953421313 / 562949953421312)"
      by (simp_all add: rounds_to_def fl_ok_def example_roundings)
    show ?thesis
      by (rule update_saturated_rounded [OF lim ord ki kn der P D out sat r1 r2 r3 r4 r5 r6])
  qed
  have low: "\<exists>s'. PIDController_update_f ?s0 (Finite (- (3152519739159347 / 4503599627370496))) (Finite (5764607523034235 / 576460752303423488))
             = Inr (Finite (- 1), s')
           \<and> integral_f s' = Finite (4820258976169983 / 35184372088832)
           \<and> proportional_term_f s' = Finite (- (3152519739159347 / 4503599627370496))
           \<and> derivative_term_f s' = Finite (- 14)
           \<and> recomputed_output s' = Finite (- (562949953421313 / 562949953421312))
           \<and> \<bar>(- (562949953421313 / 562949953421312)) - (- 1)\<bar>
               \<le> ((1 + unit_roundoff) ^ 6 - 1)
                  * (\<bar>(- 1)\<bar> + \<bar>(- (3152519739159347 / 4503599627370496))\<bar> + \<bar>(- 14)\<bar>)"
  proof -
    have der: "(if fgt (Finite (5764607523034235 / 576460752303423488)) (Finite 0)
                then fdiv (fsub (Finite (- (3152519739159347 / 4503599627370496))) (previous_error_f ?s0))
                       (Finite (5764607523034235 / 576460752303423488))
                else Inr (Finite 0)) = Inr (Finite (- 70))"
      by (simp add: PIDController_init_f_def fgt_def fsub_def example_roundings)
    have P: "fmul (Kp_f ?s0) (Finite (- (3152519739159347 / 4503599627370496))) = Finite (- (3152519739159347 / 4503599627370496))"
      by (simp add: PIDController_init_f_def example_roundings)
    have D: "fmul (Kd_f ?s0) (Finite (- 70)) = Finite (- 14)"
      by (simp add: PIDController_init_f_def example_roundings)
    have out: "Finite (- (8275758380260681 / 562949953421312)) =
        fadd (fadd (Finite (- (3152519739159347 / 4503599627370496)))
                (fmul (Finite (3602879701896397 / 36028797018963968))
                   (fadd (integral_f ?s0)
                      (fmul (Finite (- (3152519739159347 / 4503599627370496))) (Finite (5764607523034235 / 576460752303423488))))))
          (Finite (- 14))"
      by (simp add: PIDController_init_f_def example_roundings)
    have sat: "fgt (Finite (- (8275758380260681 / 562949953421312))) (Finite 1) \<and> ((- 1) :: real) = 1
        \<or> flt (Finite (- (8275758380260681 / 562949953421312))) (Finite (- 1)) \<and> ((- 1) :: real) = - 1"
      by (simp add: fgt_def)
    have r1: "rounds_to ((- 1) - (- (3152519739159347 / 4503599627370496))) (- (1351079888211149 / 4503599627370496))"
      and r2: "rounds_to ((- (1351079888211149 / 4503599627370496)) - (- 14)) (3856207180935987 / 281474976710656)"
      and r3: "rounds_to ((3856207180935987 / 281474976710656) / (3602879701896397 / 36028797018963968))
                 (4820258976169983 / 35184372088832)"
      and r4: "rounds_to ((3602879701896397 / 36028797018963968) * (4820258976169983 / 35184372088832))
                 (7712414361871973 / 562949953421312)"
      and r5: "rounds_to ((- (3152519739159347 / 4503599627370496)) + (7712414361871973 / 562949953421312))
                 (7318349394477055 / 562949953421312)"
      and r6: "rounds_to ((7318349394477055 / 562949953421312) + (- 14)) (- (562949953421313 / 562949953421312))"
      by (simp_all add: rounds_to_def fl_ok_def example_roundings)
    show ?thesis
      by (rule update_saturated_rounded [OF lim ord ki kn der P D out sat r1 r2 r3 r4 r5 r6])
  qed
  from high low show ?thesis by (simp only: simp_thms)
qed


text \<open>
  Claim C1 as stated fails. A fresh controller with gains \<open>(1.0, 0.1, 0.2)\<close> and
  limits \<open>(-1.0, 1.0)\<close>, updated with error \<open>0.7\<close> and step \<open>0.01\<close>, has the unsaturated
  sum \<open>14.7007\<close> and returns \<open>1.0\<close>; it stores the integral \<^verbatim>\<open>-136.99999999999997\<close>,
  from which \<open>P + Ki\<cdot>integral + D\<close> is \<open>1 + 2\<^sup>-\<^sup>4\<^sup>9\<close> (\<^verbatim>\<open>1.0000000000000018\<close>) and not the
  saturated output.
\<close>

theorem update_saturated_exact_counterexample:
  "PIDController_update_f
     (PIDController_init_f (Finite 1) (Finite (3602879701896397 / 36028797018963968))
         (Finite (3602879701896397 / 18014398509481984))
         (Some (Finite (- 1), Finite 1)))
     (Finite (3152519739159347 / 4503599627370496)) (Finite (5764607523034235 / 576460752303423488))
   = Inr (Finite 1,
       \<lparr>Kp_f = Finite 1, Ki_f = Finite (3602879701896397 / 36028797018963968),
        Kd_f = Finite (3602879701896397 / 18014398509481984),
        integral_f = Finite (- (4820258976169983 / 35184372088832)),
        previous_error_f = Finite (3152519739159347 / 4503599627370496),
        output_limits_f = Some (Finite (- 1), Finite 1),
        proportional_term_f = Finite (3152519739159347 / 4503599627370496),
        integral_term_f = Finite (6456360425798343 / 9223372036854775808),
        derivative_term_f = Finite 14\<rparr>)
   \<and> recomputed_output
       \<lparr>Kp_f = Finite 1, Ki_f = Finite (3602879701896397 / 36028797018963968),
        Kd_f = Finite (3602879701896397 / 18014398509481984),
        integral_f = Finite (- (4820258976169983 / 35184372088832)),
        previous_error_f = Finite (3152519739159347 / 4503599627370496),
        output_limits_f = Some (Finite (- 1), Finite 1),
        proportional_term_f = Finite (3152519739159347 / 4503599627370496),
        integral_term_f = Finite (6456360425798343 / 9223372036854775808),
        derivative_term_f = Finite 14\<rparr>
     = Finite (562949953421313 / 562949953421312)
   \<and> (562949953421313 / 562949953421312 :: real) \<noteq> 1"
  by (simp add: PIDController_update_f_def PIDController_init_f_def apply_limits_f_def
      anti_windup_f_def recomputed_output_def fsub_def fgt_def Let_def example_roundings)

end
